theory Spec2Isabelle
  imports Main
begin

section \<open>Parse trees of createas.c\<close>

text \<open>
  The nodes of a PostgreSQL parse tree that \<^verbatim>\<open>createas.c\<close> inspects.  The C code
  passes every node as \<^verbatim>\<open>Node *\<close> and dispatches on its tag; here each tag that the code
  distinguishes is a constructor of the type it can occur in (expressions, target entries,
  join-tree nodes, range-table entries, common table expressions, queries).  Fields the
  code never reads are left out.  A node that is only ever compared with \<^verbatim>\<open>NULL\<close> or
  \<^verbatim>\<open>NIL\<close> is kept as an \<open>opaque\<close> value under an \<open>option\<close> or in a list.
\<close>

type_synonym Oid = nat
type_synonym AttrNumber = int

datatype opaque = Opaque

datatype JoinType = JOIN_INNER | JOIN_LEFT | JOIN_FULL | JOIN_RIGHT | JOIN_SEMI | JOIN_ANTI

datatype RTEKind =
    RTE_RELATION | RTE_SUBQUERY | RTE_JOIN | RTE_FUNCTION | RTE_TABLEFUNC
  | RTE_VALUES | RTE_CTE | RTE_NAMEDTUPLESTORE | RTE_RESULT

datatype RelKind =
    RELKIND_RELATION | RELKIND_PARTITIONED_TABLE | RELKIND_FOREIGN_TABLE
  | RELKIND_VIEW | RELKIND_MATVIEW | RELKIND_OTHER

datatype SubLinkType =
    EXISTS_SUBLINK | ALL_SUBLINK | ANY_SUBLINK | ROWCOMPARE_SUBLINK
  | EXPR_SUBLINK | MULTIEXPR_SUBLINK | ARRAY_SUBLINK | CTE_SUBLINK

text \<open>
  The function identifiers \<^verbatim>\<open>F_COUNT_ANY\<close>, \<^verbatim>\<open>F_SUM_INT8\<close>, ... that
  \<^verbatim>\<open>check_aggregate_supports_ivm\<close> switches on come from \<^verbatim>\<open>utils/fmgroids.h\<close>.  They
  are kept symbolic: \<open>F_SUM SUM_INT8\<close> is \<^verbatim>\<open>F_SUM_INT8\<close>, \<open>F_MIN OF_TEXT\<close> is
  \<^verbatim>\<open>F_MIN_TEXT\<close>, and so on; the argument types listed are those of the switch.  \<open>F_COUNT_STAR\<close> is
  \<^verbatim>\<open>F_COUNT_\<close>, the function of \<^verbatim>\<open>count(*)\<close> (a name cannot end with an underscore here).
  Every other function identifier is \<open>F_OTHER\<close> with its number.
\<close>

datatype sum_arg =
    SUM_INT8 | SUM_INT4 | SUM_INT2 | SUM_FLOAT4 | SUM_FLOAT8 | SUM_MONEY | SUM_INTERVAL
  | SUM_NUMERIC

datatype avg_arg =
    AVG_INT8 | AVG_INT4 | AVG_INT2 | AVG_NUMERIC | AVG_FLOAT4 | AVG_FLOAT8 | AVG_INTERVAL

datatype minmax_arg =
    OF_ANYARRAY | OF_INT8 | OF_INT4 | OF_INT2 | OF_OID | OF_FLOAT4 | OF_FLOAT8 | OF_DATE
  | OF_TIME | OF_TIMETZ | OF_MONEY | OF_TIMESTAMP | OF_TIMESTAMPTZ | OF_INTERVAL | OF_TEXT
  | OF_NUMERIC | OF_BPCHAR | OF_TID | OF_ANYENUM | OF_INET | OF_PG_LSN

datatype aggfn =
    F_COUNT_ANY | F_COUNT_STAR | F_SUM sum_arg | F_AVG avg_arg | F_MIN minmax_arg
  | F_MAX minmax_arg | F_OTHER nat

record SortGroupClause =
  tleSortGroupRef :: nat

text \<open>
  The fields of \<^verbatim>\<open>Query\<close> that hold no sub-query.  \<open>havingQual\<close>, \<open>limitOffset\<close>,
  \<open>limitCount\<close>, \<open>setOperations\<close>, \<open>groupingSets\<close> and \<open>rowMarks\<close> are only tested
  for being empty.
\<close>

record QueryInfo =
  havingQual :: "opaque option"
  sortClause :: "SortGroupClause list"
  limitOffset :: "opaque option"
  limitCount :: "opaque option"
  hasDistinctOn :: bool
  hasWindowFuncs :: bool
  groupingSets :: "opaque list"
  setOperations :: "opaque option"
  rowMarks :: "opaque list"
  hasRecursive :: bool
  distinctClause :: "SortGroupClause list"
  groupClause :: "SortGroupClause list"
  hasAggs :: bool
  hasSubLinks :: bool

text \<open>
  \<open>OtherExpr\<close> stands for every expression node without a case of its own in the code
  (constants, function calls, boolean expressions, ...); its list holds the
  sub-expressions that \<^verbatim>\<open>expression_tree_walker\<close> visits, in that order.
\<close>

datatype Expr =
    Var (varno: nat) (varattno: AttrNumber) (varlevelsup: nat)
  | Aggref (aggfnoid: aggfn) (args: "Expr list") (aggargtypes: "Oid list")
      (aggfilter: "Expr option") (aggdistinct: "SortGroupClause list")
      (aggorder: "SortGroupClause list")
  | SubLink (subLinkType: SubLinkType) (testexpr: "Expr option") (subselect: Query)
  | OpExpr (opno: Oid) (opargs: "Expr list")
  | OtherExpr (subexprs: "Expr list")
and TargetEntry =
    TargetEntry (expr: Expr) (resno: AttrNumber) (resname: string) (ressortgroupref: nat)
      (resjunk: bool)
and JoinTree =
    RangeTblRef (rtindex: nat)
  | FromExpr (fromlist: "JoinTree list") (quals: "Expr option")
  | JoinExpr (jointype: JoinType) (larg: JoinTree) (rarg: JoinTree) (joinquals: "Expr option")
and RangeTblEntry =
    RTE (rtekind: RTEKind) (relid: Oid) (relkind: RelKind) (tablesample: "opaque option")
      (subquery: "Query option") (lateral: bool) (rte_ctename: string)
and CommonTableExpr =
    CommonTableExpr (ctename: string) (ctequery: Query) (cterefcount: nat)
and Query =
    Query (info: QueryInfo) (targetList: "TargetEntry list") (rtable: "RangeTblEntry list")
      (jointree: JoinTree) (cteList: "CommonTableExpr list")

text \<open>\<^verbatim>\<open>qry->jointree->quals\<close>: the parser always puts a \<^verbatim>\<open>FromExpr\<close> at the top.\<close>

fun jointree_quals :: "JoinTree \<Rightarrow> Expr option" where
  "jointree_quals (FromExpr fl q) = q"
| "jointree_quals (RangeTblRef i) = None"
| "jointree_quals (JoinExpr t l r q) = None"

text \<open>The macro \<^verbatim>\<open>IS_OUTER_JOIN\<close> of \<^verbatim>\<open>nodes/nodes.h\<close>: left, full, right and anti joins.\<close>

fun IS_OUTER_JOIN :: "JoinType \<Rightarrow> bool" where
  "IS_OUTER_JOIN JOIN_LEFT = True"
| "IS_OUTER_JOIN JOIN_FULL = True"
| "IS_OUTER_JOIN JOIN_RIGHT = True"
| "IS_OUTER_JOIN JOIN_ANTI = True"
| "IS_OUTER_JOIN JOIN_INNER = False"
| "IS_OUTER_JOIN JOIN_SEMI = False"

text \<open>
  A column of a tuple descriptor (\<^verbatim>\<open>Form_pg_attribute\<close>), with the fields that this file
  reads.
\<close>

record FormData_pg_attribute =
  attname :: string
  atttypid :: Oid
  attcollation :: Oid

section \<open>Functions of the server that createas.c calls\<close>

text \<open>
  The functions below are defined in other files of the server.  They are parameters of
  the model: every theorem holds whatever they compute.
\<close>

record pg_env =
  pull_vars_of_level_query :: "Query \<Rightarrow> nat \<Rightarrow> Expr list"
  pull_vars_of_level :: "Expr option \<Rightarrow> nat \<Rightarrow> Expr list"
  find_nonnullable_vars :: "Expr option \<Rightarrow> Expr list"
  flatten_join_alias_vars :: "Query \<Rightarrow> Expr \<Rightarrow> Expr"
  contain_nonstrict_functions :: "TargetEntry list \<Rightarrow> bool"
  contain_aggs_of_level :: "Expr \<Rightarrow> nat \<Rightarrow> bool"
  has_superclass :: "Oid \<Rightarrow> bool"
  find_inheritance_children :: "Oid \<Rightarrow> Oid list"
  pull_varnos :: "Expr \<Rightarrow> nat set"
  exprType :: "Expr \<Rightarrow> Oid"
  op_mergejoinable :: "Oid \<Rightarrow> Oid \<Rightarrow> bool"
  get_mergejoin_opfamilies :: "Oid \<Rightarrow> Oid list"
  op_hashjoinable :: "Oid \<Rightarrow> Oid \<Rightarrow> bool"
  rewrite_query_for_exists_subquery :: "Query \<Rightarrow> Query"
  getColumnNameStartWith :: "RangeTblEntry \<Rightarrow> string \<Rightarrow> (string \<times> AttrNumber) option"
  ParseFuncOrColumn :: "string \<Rightarrow> Oid list \<Rightarrow> bool \<Rightarrow> Expr"
  get_func_name :: "aggfn \<Rightarrow> string"
  makeObjectName :: "string \<Rightarrow> string \<Rightarrow> string \<Rightarrow> string"
  get_primary_key_attnos :: "Oid \<Rightarrow> int set option \<times> Oid"
  inline_cte :: "Query \<Rightarrow> CommonTableExpr \<Rightarrow> Query"
  pull_varnos_of_level :: "JoinTree \<Rightarrow> nat \<Rightarrow> nat set"
  contain_mutable_functions :: "Query \<Rightarrow> bool"
  exprCollation :: "Expr \<Rightarrow> Oid"
  type_is_collatable :: "Oid \<Rightarrow> bool"
  CheckIndexCompatible :: "Oid \<Rightarrow> string list \<Rightarrow> bool"
  QueryRewrite :: "Query \<Rightarrow> Query list"
  executor_tupdesc :: "Query \<Rightarrow> FormData_pg_attribute list"
  check_enable_rls :: "Oid \<Rightarrow> bool"
  prepared_query :: "string \<Rightarrow> Query option"
  max_stack_depth :: nat

text \<open>
  Some of these parameters stand for more than a function of the same name.
  \<open>get_primary_key_attnos\<close> returns the set of key columns (nothing for \<^verbatim>\<open>NULL\<close>) together
  with the OID of the constraint.  \<open>CheckIndexCompatible\<close> takes the OID of an index and the
  column names of the index wanted.  \<open>executor_tupdesc\<close> is the tuple descriptor with which
  the executor calls the startup routine of the receiver when it runs the plan of a query.
  \<open>check_enable_rls\<close> tells whether the answer is \<^verbatim>\<open>RLS_ENABLED\<close>.  \<open>prepared_query\<close> is the
  query of a prepared statement.  \<open>max_stack_depth\<close> is the number of nested calls after
  which \<^verbatim>\<open>check_stack_depth\<close> raises an error.
\<close>

text \<open>
  Modelled from the spec: \<^verbatim>\<open>isIvmName\<close> (defined in \<^verbatim>\<open>matview.c\<close>) tells whether a name
  collides with ``the reserved internal prefix used for bookkeeping columns''; every
  generated identifier the spec lists starts with \<^verbatim>\<open>__ivm_\<close>.
\<close>

definition isIvmName :: "string \<Rightarrow> bool" where
  "isIvmName s = (take 6 s = ''__ivm_'')"

text \<open>\<^verbatim>\<open>list_difference\<close> of \<^verbatim>\<open>nodes/list.c\<close>: the cells of the first list not in the second.\<close>

definition list_difference :: "'a list \<Rightarrow> 'a list \<Rightarrow> 'a list" where
  "list_difference xs ys = filter (\<lambda>x. x \<notin> set ys) xs"

section \<open>The restriction checker\<close>

datatype ivm_error =
    E_HAVING | E_ORDER_BY | E_LIMIT_OFFSET | E_DISTINCT_ON | E_WINDOW_FUNCTIONS
  | E_GROUPING_SETS | E_SET_OPERATIONS | E_EMPTY_TARGET_LIST | E_ROW_MARKS
  | E_RECURSIVE_CTE | E_SYSTEM_COLUMN
  | E_NESTED_DISTINCT | E_NESTED_AGGREGATE
  | E_TABLESAMPLE | E_PARTITIONED_TABLE | E_PARTITION | E_INHERITANCE_PARENT
  | E_FOREIGN_TABLE | E_VIEW_OR_MATVIEW | E_VALUES
  | E_SUBQUERY_WITH_OUTER_JOIN
  | E_EXISTS_VARS_NOT_IN_TARGETLIST
  | E_NOT_SIMPLE_EQUIJOIN | E_JOIN_VARS_NOT_IN_TARGETLIST
  | E_WHERE_NOT_NULL_REJECTING | E_NONSTRICT_IN_TARGETLIST
  | E_CTE_NAME string | E_COLUMN_NAME string
  | E_AGGREGATE_IN_EXPRESSION | E_SUBLINK_IN_TARGETLIST
  | E_AGGREGATE_WITH_OUTER_JOIN
  | E_SUBLINK_NOT_EXISTS | E_NESTED_SUBLINK | E_SUBLINK_WITH_OUTER_JOIN
  | E_AGG_FILTER | E_AGG_DISTINCT | E_AGG_ORDER | E_AGG_NOT_SUPPORTED aggfn
  | E_NULL_POINTER
  | E_MUTABLE_FUNCTION
  | E_GROUP_BY_NOT_IN_SELECT_LIST
  | E_DISTINCT_ORDER_BY_NOT_IN_SELECT_LIST | E_DISTINCT_WITHOUT_COLUMNS
  | E_LIST_INDEX
  | E_STACK_DEPTH
  | E_TOO_MANY_COLUMN_NAMES | E_NO_COLLATION string | E_DUPLICATE_TABLE string
  | E_ELOG string


record check_ivm_restriction_context =
  has_agg :: bool
  has_outerjoin :: bool
  has_subquery :: bool
  in_exists_subquery :: bool
  join_quals :: "Expr option list"
  exists_qual_vars :: "Expr list"
  sublevels_up :: int

fun check_aggregate_supports_ivm :: "aggfn \<Rightarrow> bool" where
  "check_aggregate_supports_ivm (F_OTHER n) = False"
| "check_aggregate_supports_ivm _ = True"

fun is_equijoin_condition :: "pg_env \<Rightarrow> Expr \<Rightarrow> bool" where
  "is_equijoin_condition env (OpExpr opn [left_expr, right_expr]) =
     (let left_varnos = pull_varnos env left_expr;
          right_varnos = pull_varnos env right_expr;
          opinputtype = exprType env left_expr
      in if card left_varnos \<noteq> 1 \<or> card right_varnos \<noteq> 1 \<or> left_varnos = right_varnos
         then False
         else if op_mergejoinable env opn opinputtype \<and> get_mergejoin_opfamilies env opn \<noteq> []
         then True
         else if op_hashjoinable env opn opinputtype then True
         else False)"
| "is_equijoin_condition env _ = False"

text \<open>Lines 1142--1183: the clauses no query level may have.\<close>

definition query_clause_restrictions :: "Query \<Rightarrow> ivm_error + unit" where
  "query_clause_restrictions qry =
     (if havingQual (info qry) \<noteq> None then Inl E_HAVING
      else if sortClause (info qry) \<noteq> [] then Inl E_ORDER_BY
      else if limitOffset (info qry) \<noteq> None \<or> limitCount (info qry) \<noteq> None
        then Inl E_LIMIT_OFFSET
      else if hasDistinctOn (info qry) then Inl E_DISTINCT_ON
      else if hasWindowFuncs (info qry) then Inl E_WINDOW_FUNCTIONS
      else if groupingSets (info qry) \<noteq> [] then Inl E_GROUPING_SETS
      else if setOperations (info qry) \<noteq> None then Inl E_SET_OPERATIONS
      else if length (targetList qry) = 0 then Inl E_EMPTY_TARGET_LIST
      else if rowMarks (info qry) \<noteq> [] then Inl E_ROW_MARKS
      else if hasRecursive (info qry) then Inl E_RECURSIVE_CTE
      else Inr ())"

fun is_system_column :: "Expr \<Rightarrow> bool" where
  "is_system_column (Var n a l) = (a < 0)"
| "is_system_column _ = False"

text \<open>Lines 1185--1198.\<close>

definition system_column_restriction :: "pg_env \<Rightarrow> Query \<Rightarrow> ivm_error + unit" where
  "system_column_restriction env qry =
     (if list_ex is_system_column (pull_vars_of_level_query env qry 0)
      then Inl E_SYSTEM_COLUMN else Inr ())"

text \<open>Lines 1200--1208: DISTINCT and aggregates in a nested query.\<close>

definition subquery_restrictions ::
  "QueryInfo \<Rightarrow> check_ivm_restriction_context \<Rightarrow> ivm_error + unit" where
  "subquery_restrictions qi context =
     (if sublevels_up context > 0 \<and> distinctClause qi \<noteq> [] then Inl E_NESTED_DISTINCT
      else if sublevels_up context > 0 \<and> hasAggs qi then Inl E_NESTED_AGGREGATE
      else Inr ())"

text \<open>\<^verbatim>\<open>var->varno == var2->varno && var->varattno == var2->varattno\<close> on two \<^verbatim>\<open>Var\<close> nodes.\<close>

fun same_var :: "Expr \<Rightarrow> Expr \<Rightarrow> bool" where
  "same_var (Var n a l) (Var n2 a2 l2) = (n = n2 \<and> a = a2)"
| "same_var _ _ = False"

fun is_Var :: "Expr \<Rightarrow> bool" where
  "is_Var (Var n a l) = True"
| "is_Var _ = False"

fun is_Aggref :: "Expr \<Rightarrow> bool" where
  "is_Aggref (Aggref f a t fl d ord) = True"
| "is_Aggref _ = False"

fun is_SubLink :: "Expr \<Rightarrow> bool" where
  "is_SubLink (SubLink t te q) = True"
| "is_SubLink _ = False"

text \<open>Lines 1271--1302: variables of the upper query used in an EXISTS subquery.\<close>

definition exists_restrictions ::
  "TargetEntry list \<Rightarrow> check_ivm_restriction_context \<Rightarrow> ivm_error + unit" where
  "exists_restrictions tlist context =
     (if exists_qual_vars context \<noteq> [] \<and> sublevels_up context = 0 then
        (if list_all (\<lambda>var. list_ex (\<lambda>tle. is_Var (expr tle) \<and> same_var var (expr tle)) tlist)
              (exists_qual_vars context)
         then Inr () else Inl E_EXISTS_VARS_NOT_IN_TARGETLIST)
      else Inr ())"

text \<open>
  Lines 1312--1324: every outer-join qualifier must be an equijoin; the variables of the
  qualifiers are collected.  \<^verbatim>\<open>is_equijoin_condition\<close> reads the tag of its argument, so
  a join without qualifier (a null pointer) is an error of its own here.
\<close>

fun outerjoin_qual_vars :: "pg_env \<Rightarrow> Query \<Rightarrow> Expr option list \<Rightarrow> ivm_error + Expr list" where
  "outerjoin_qual_vars env qry [] = Inr []"
| "outerjoin_qual_vars env qry (None # ops) = Inl E_NULL_POINTER"
| "outerjoin_qual_vars env qry (Some op # ops) =
     (if \<not> is_equijoin_condition env op then Inl E_NOT_SIMPLE_EQUIJOIN
      else case outerjoin_qual_vars env qry ops of
             Inl e \<Rightarrow> Inl e
           | Inr vs \<Rightarrow>
               Inr (pull_vars_of_level env (Some (flatten_join_alias_vars env qry op)) 0 @ vs))"

text \<open>Lines 1353--1359: the variables of WHERE must all be non-nullable.\<close>

definition where_quals_vars :: "pg_env \<Rightarrow> Query \<Rightarrow> Expr list" where
  "where_quals_vars env qry =
     pull_vars_of_level env
       (map_option (flatten_join_alias_vars env qry) (jointree_quals (jointree qry))) 0"

definition nonnullable_vars :: "pg_env \<Rightarrow> Query \<Rightarrow> Expr list" where
  "nonnullable_vars env qry = find_nonnullable_vars env (jointree_quals (jointree qry))"

definition where_restriction :: "pg_env \<Rightarrow> Query \<Rightarrow> ivm_error + unit" where
  "where_restriction env qry =
     (if length (list_difference (where_quals_vars env qry) (nonnullable_vars env qry)) > 0
      then Inl E_WHERE_NOT_NULL_REJECTING else Inr ())"

text \<open>Lines 1326--1351: every variable of the outer-join qualifiers is in the target list.\<close>

definition join_vars_in_targetlist :: "pg_env \<Rightarrow> Query \<Rightarrow> Expr list \<Rightarrow> bool" where
  "join_vars_in_targetlist env qry qual_vars =
     list_all (\<lambda>var. list_ex (\<lambda>tle. is_Var (expr tle) \<and>
         same_var var (flatten_join_alias_vars env qry (expr tle))) (targetList qry)) qual_vars"

text \<open>Lines 1304--1366: the checks made at the top level once an outer join was seen.\<close>

definition outerjoin_restrictions ::
  "pg_env \<Rightarrow> Query \<Rightarrow> check_ivm_restriction_context \<Rightarrow> ivm_error + unit" where
  "outerjoin_restrictions env qry context =
     (if has_outerjoin context \<and> sublevels_up context = 0 then
        (case outerjoin_qual_vars env qry (join_quals context) of
           Inl e \<Rightarrow> Inl e
         | Inr qual_vars \<Rightarrow>
             if \<not> join_vars_in_targetlist env qry qual_vars
             then Inl E_JOIN_VARS_NOT_IN_TARGETLIST
             else case where_restriction env qry of
                    Inl e \<Rightarrow> Inl e
                  | Inr u \<Rightarrow>
                      if contain_nonstrict_functions env (targetList qry)
                      then Inl E_NONSTRICT_IN_TARGETLIST else Inr ())
      else Inr ())"

text \<open>Lines 1217--1251: what a range-table entry must not be.\<close>

definition rte_restrictions :: "pg_env \<Rightarrow> RangeTblEntry \<Rightarrow> ivm_error + unit" where
  "rte_restrictions env rte =
     (if tablesample rte \<noteq> None then Inl E_TABLESAMPLE
      else if relkind rte = RELKIND_PARTITIONED_TABLE then Inl E_PARTITIONED_TABLE
      else if relkind rte = RELKIND_RELATION \<and> has_superclass env (relid rte) then Inl E_PARTITION
      else if relkind rte = RELKIND_RELATION \<and> find_inheritance_children env (relid rte) \<noteq> []
        then Inl E_INHERITANCE_PARENT
      else if relkind rte = RELKIND_FOREIGN_TABLE then Inl E_FOREIGN_TABLE
      else if relkind rte = RELKIND_VIEW \<or> relkind rte = RELKIND_MATVIEW
        then Inl E_VIEW_OR_MATVIEW
      else if rtekind rte = RTE_VALUES then Inl E_VALUES
      else Inr ())"

subsection \<open>The walker\<close>

text \<open>
  \<^verbatim>\<open>check_ivm_restriction_walker\<close>.  One function per node type: \<open>walk_query\<close> is the case
  \<^verbatim>\<open>T_Query\<close> (\<open>walk_rtable\<close> its loop over the range table), \<open>walk_cte\<close> the case
  \<^verbatim>\<open>T_CommonTableExpr\<close>, \<open>walk_tle\<close> the case \<^verbatim>\<open>T_TargetEntry\<close>, \<open>walk_jt\<close> the case
  \<^verbatim>\<open>T_JoinExpr\<close> and the default case on the other join-tree nodes, \<open>walk_expr\<close> the cases
  \<^verbatim>\<open>T_Var\<close>, \<open>T_SubLink\<close>, \<open>T_Aggref\<close> and the default case on expressions.  The
  functions on lists are \<^verbatim>\<open>expression_tree_walker\<close> on a list.  The context is passed in
  and returned; an \<^verbatim>\<open>ereport(ERROR)\<close> is \<open>Inl\<close>.

  A sub-query of the range table is walked with \<open>sublevels_up\<close> one higher; a range-table
  entry of kind \<^verbatim>\<open>RTE_SUBQUERY\<close> without sub-query is passed to the walker as a null
  pointer, which returns at once.

  \<^verbatim>\<open>query_tree_walker\<close> with \<^verbatim>\<open>QTW_IGNORE_RANGE_TABLE\<close> visits the target list, the join
  tree and the CTE list, in this order (the other fields it visits are empty once
  \<open>query_clause_restrictions\<close> has passed).
\<close>

function walk_query :: "pg_env \<Rightarrow> Query \<Rightarrow> check_ivm_restriction_context \<Rightarrow>
      ivm_error + check_ivm_restriction_context"
and walk_rtable :: "pg_env \<Rightarrow> RangeTblEntry list \<Rightarrow> check_ivm_restriction_context \<Rightarrow>
      ivm_error + check_ivm_restriction_context"
and walk_tlist :: "pg_env \<Rightarrow> TargetEntry list \<Rightarrow> check_ivm_restriction_context \<Rightarrow>
      ivm_error + check_ivm_restriction_context"
and walk_tle :: "pg_env \<Rightarrow> TargetEntry \<Rightarrow> check_ivm_restriction_context \<Rightarrow>
      ivm_error + check_ivm_restriction_context"
and walk_expr :: "pg_env \<Rightarrow> Expr \<Rightarrow> check_ivm_restriction_context \<Rightarrow>
      ivm_error + check_ivm_restriction_context"
and walk_exprs :: "pg_env \<Rightarrow> Expr list \<Rightarrow> check_ivm_restriction_context \<Rightarrow>
      ivm_error + check_ivm_restriction_context"
and walk_opt :: "pg_env \<Rightarrow> Expr option \<Rightarrow> check_ivm_restriction_context \<Rightarrow>
      ivm_error + check_ivm_restriction_context"
and walk_jt :: "pg_env \<Rightarrow> JoinTree \<Rightarrow> check_ivm_restriction_context \<Rightarrow>
      ivm_error + check_ivm_restriction_context"
and walk_jts :: "pg_env \<Rightarrow> JoinTree list \<Rightarrow> check_ivm_restriction_context \<Rightarrow>
      ivm_error + check_ivm_restriction_context"
and walk_cte :: "pg_env \<Rightarrow> CommonTableExpr \<Rightarrow> check_ivm_restriction_context \<Rightarrow>
      ivm_error + check_ivm_restriction_context"
and walk_ctes :: "pg_env \<Rightarrow> CommonTableExpr list \<Rightarrow> check_ivm_restriction_context \<Rightarrow>
      ivm_error + check_ivm_restriction_context"
where
  "walk_query env (Query qi tlist rt jt ctes) context =
     (case query_clause_restrictions (Query qi tlist rt jt ctes) of Inl e \<Rightarrow> Inl e | Inr u1 \<Rightarrow>
      case system_column_restriction env (Query qi tlist rt jt ctes) of Inl e \<Rightarrow> Inl e | Inr u2 \<Rightarrow>
      case subquery_restrictions qi context of Inl e \<Rightarrow> Inl e | Inr u3 \<Rightarrow>
      case walk_rtable env rt (context\<lparr>has_agg := has_agg context \<or> hasAggs qi\<rparr>) of
        Inl e \<Rightarrow> Inl e | Inr c1 \<Rightarrow>
      case walk_tlist env tlist c1 of Inl e \<Rightarrow> Inl e | Inr c2 \<Rightarrow>
      case walk_jt env jt c2 of Inl e \<Rightarrow> Inl e | Inr c3 \<Rightarrow>
      case walk_ctes env ctes c3 of Inl e \<Rightarrow> Inl e | Inr c4 \<Rightarrow>
      case exists_restrictions tlist c4 of Inl e \<Rightarrow> Inl e | Inr u4 \<Rightarrow>
      case outerjoin_restrictions env (Query qi tlist rt jt ctes) c4 of
        Inl e \<Rightarrow> Inl e | Inr u5 \<Rightarrow> Inr c4)"
| "walk_rtable env [] context = Inr context"
| "walk_rtable env (RTE kind rid rkind ts sub lat cn # rtes) context =
     (case rte_restrictions env (RTE kind rid rkind ts sub lat cn) of Inl e \<Rightarrow> Inl e | Inr u \<Rightarrow>
      if kind = RTE_SUBQUERY then
        (if has_outerjoin context then Inl E_SUBQUERY_WITH_OUTER_JOIN
         else case sub of
            None \<Rightarrow> walk_rtable env rtes (context\<lparr>has_subquery := True\<rparr>)
          | Some sq \<Rightarrow>
             (case walk_query env sq
                     (context\<lparr>has_subquery := True, sublevels_up := sublevels_up context + 1\<rparr>) of
                Inl e \<Rightarrow> Inl e
              | Inr c \<Rightarrow> walk_rtable env rtes (c\<lparr>sublevels_up := sublevels_up c - 1\<rparr>)))
      else walk_rtable env rtes context)"
| "walk_tlist env [] context = Inr context"
| "walk_tlist env (tle # tles) context =
     (case walk_tle env tle context of Inl e \<Rightarrow> Inl e | Inr c \<Rightarrow> walk_tlist env tles c)"
| "walk_tle env (TargetEntry ex rno rname sgref junk) context =
     (if isIvmName rname then Inl (E_COLUMN_NAME rname)
      else if has_agg context \<and> \<not> is_Aggref ex \<and> contain_aggs_of_level env ex 0
        then Inl E_AGGREGATE_IN_EXPRESSION
      else if is_SubLink ex then Inl E_SUBLINK_IN_TARGETLIST
      else walk_expr env ex context)"
| "walk_expr env (Var n a lvl) context =
     Inr (if lvl > 0 \<and> in_exists_subquery context
          then context\<lparr>exists_qual_vars := exists_qual_vars context @ [Var n a lvl]\<rparr>
          else context)"
| "walk_expr env (SubLink ty test sub) context =
     (if ty \<noteq> EXISTS_SUBLINK then Inl E_SUBLINK_NOT_EXISTS
      else if sublevels_up context > 0 then Inl E_NESTED_SUBLINK
      else if has_outerjoin context then Inl E_SUBLINK_WITH_OUTER_JOIN
      else case walk_query env sub
                  (context\<lparr>in_exists_subquery := True, sublevels_up := sublevels_up context + 1\<rparr>) of
             Inl e \<Rightarrow> Inl e
           | Inr c \<Rightarrow> Inr (c\<lparr>sublevels_up := sublevels_up c - 1, in_exists_subquery := False\<rparr>))"
| "walk_expr env (Aggref fn ags tys flt dist ord) context =
     (if flt \<noteq> None then Inl E_AGG_FILTER
      else if dist \<noteq> [] then Inl E_AGG_DISTINCT
      else if ord \<noteq> [] then Inl E_AGG_ORDER
      else if \<not> check_aggregate_supports_ivm fn then Inl (E_AGG_NOT_SUPPORTED fn)
      else Inr context)"
| "walk_expr env (OpExpr opn ags) context = walk_exprs env ags context"
| "walk_expr env (OtherExpr ags) context = walk_exprs env ags context"
| "walk_exprs env [] context = Inr context"
| "walk_exprs env (ex # exs) context =
     (case walk_expr env ex context of Inl e \<Rightarrow> Inl e | Inr c \<Rightarrow> walk_exprs env exs c)"
| "walk_opt env None context = Inr context"
| "walk_opt env (Some ex) context = walk_expr env ex context"
| "walk_jt env (RangeTblRef i) context = Inr context"
| "walk_jt env (FromExpr fl q) context =
     (case walk_jts env fl context of Inl e \<Rightarrow> Inl e | Inr c \<Rightarrow> walk_opt env q c)"
| "walk_jt env (JoinExpr jty l r q) context =
     (if IS_OUTER_JOIN jty \<and> has_subquery context then Inl E_SUBQUERY_WITH_OUTER_JOIN
      else if IS_OUTER_JOIN jty \<and> has_agg context then Inl E_AGGREGATE_WITH_OUTER_JOIN
      else case walk_jt env l
                  (if IS_OUTER_JOIN jty
                   then context\<lparr>has_outerjoin := True, join_quals := join_quals context @ [q]\<rparr>
                   else context) of
             Inl e \<Rightarrow> Inl e
           | Inr c1 \<Rightarrow>
              (case walk_jt env r c1 of Inl e \<Rightarrow> Inl e | Inr c2 \<Rightarrow> walk_opt env q c2))"
| "walk_jts env [] context = Inr context"
| "walk_jts env (j # js) context =
     (case walk_jt env j context of Inl e \<Rightarrow> Inl e | Inr c \<Rightarrow> walk_jts env js c)"
| "walk_cte env (CommonTableExpr name q refcount) context =
     (if isIvmName name then Inl (E_CTE_NAME name)
      else case walk_query env q (context\<lparr>sublevels_up := sublevels_up context + 1\<rparr>) of
             Inl e \<Rightarrow> Inl e
           | Inr c \<Rightarrow> Inr (c\<lparr>sublevels_up := sublevels_up c - 1\<rparr>))"
| "walk_ctes env [] context = Inr context"
| "walk_ctes env (c # cs) context =
     (case walk_cte env c context of Inl e \<Rightarrow> Inl e | Inr c' \<Rightarrow> walk_ctes env cs c')"
  by pat_completeness auto

text \<open>Every call is on a part of the node: the functions terminate.\<close>

termination
  by (relation "measure (\<lambda>x. case x of
      Inl l \<Rightarrow> (case l of
          Inl ll \<Rightarrow> (case ll of Inl (env, q, c) \<Rightarrow> size q | Inr (env, rt, c) \<Rightarrow> size_list size rt)
        | Inr lr \<Rightarrow> (case lr of
            Inl (env, tlist, c) \<Rightarrow> size_list size tlist
          | Inr lrr \<Rightarrow> (case lrr of Inl (env, tle, c) \<Rightarrow> size tle | Inr (env, ex, c) \<Rightarrow> size ex)))
    | Inr r \<Rightarrow> (case r of
          Inl rl \<Rightarrow> (case rl of
            Inl (env, exs, c) \<Rightarrow> size_list size exs
          | Inr rlr \<Rightarrow> (case rlr of
              Inl (env, eo, c) \<Rightarrow> size_option size eo
            | Inr (env, jt, c) \<Rightarrow> size jt))
        | Inr rr \<Rightarrow> (case rr of
            Inl (env, js, c) \<Rightarrow> size_list size js
          | Inr rrr \<Rightarrow> (case rrr of
              Inl (env, cte, c) \<Rightarrow> size cte
            | Inr (env, cs, c) \<Rightarrow> size_list size cs))))")
    simp_all

text \<open>The context \<^verbatim>\<open>check_ivm_restriction\<close> starts from.\<close>

definition initial_context :: check_ivm_restriction_context where
  "initial_context =
     \<lparr>has_agg = False, has_outerjoin = False, has_subquery = False,
      in_exists_subquery = False, join_quals = [], exists_qual_vars = [], sublevels_up = 0\<rparr>"

definition check_ivm_restriction :: "pg_env \<Rightarrow> Query \<Rightarrow> ivm_error + unit" where
  "check_ivm_restriction env node =
     (case walk_query env node initial_context of
        Inl e \<Rightarrow> Inl e
      | Inr c \<Rightarrow> Inr ())"



section \<open>The query rewriter\<close>

text \<open>\<^verbatim>\<open>rewritten->targetList = ...\<close> and the like: a query with one field replaced.\<close>

definition set_targetList :: "Query \<Rightarrow> TargetEntry list \<Rightarrow> Query" where
  "set_targetList q tlist = Query (info q) tlist (rtable q) (jointree q) (cteList q)"

definition set_info :: "Query \<Rightarrow> QueryInfo \<Rightarrow> Query" where
  "set_info q qi = Query qi (targetList q) (rtable q) (jointree q) (cteList q)"

text \<open>
  Lines 481--509: for every lateral sub-query of the range table that has a column whose
  name starts with \<^verbatim>\<open>__ivm_exists\<close>, a target entry for that column is appended.
  \<open>rti\<close> is the index of the entry \<open>rte\<close> in the range table (\<^verbatim>\<open>varno\<close> in the code).
\<close>

fun exists_count_columns ::
  "pg_env \<Rightarrow> RangeTblEntry list \<Rightarrow> nat \<Rightarrow> TargetEntry list \<Rightarrow> TargetEntry list" where
  "exists_count_columns env [] rti tlist = tlist"
| "exists_count_columns env (rte # rtes) rti tlist =
     (if subquery rte = None \<or> \<not> lateral rte then exists_count_columns env rtes (rti + 1) tlist
      else case getColumnNameStartWith env rte ''__ivm_exists'' of
             None \<Rightarrow> exists_count_columns env rtes (rti + 1) tlist
           | Some (columnName, attnum) \<Rightarrow>
               exists_count_columns env rtes (rti + 1)
                 (tlist @ [TargetEntry (Var rti attnum 0) (int (length tlist) + 1)
                             columnName 0 False]))"

text \<open>Lines 468--510.\<close>

definition add_exists_count_columns :: "pg_env \<Rightarrow> Query \<Rightarrow> Query" where
  "add_exists_count_columns env query =
     (if hasSubLinks (info query) then
        (let rewritten = rewrite_query_for_exists_subquery env query
         in set_targetList rewritten
              (exists_count_columns env (rtable rewritten) 1 (targetList rewritten)))
      else query)"

text \<open>
  \<^verbatim>\<open>get_sortgroupclause_tle\<close> of \<^verbatim>\<open>optimizer/util/tlist.c\<close>: the target entry with the
  sort/group reference of the clause; an \<^verbatim>\<open>elog(ERROR)\<close> when there is none.
\<close>

fun get_sortgroupref_tle :: "nat \<Rightarrow> TargetEntry list \<Rightarrow> ivm_error + TargetEntry" where
  "get_sortgroupref_tle sortref [] =
     Inl (E_ELOG ''ORDER/GROUP BY expression not found in targetlist'')"
| "get_sortgroupref_tle sortref (tle # tles) =
     (if ressortgroupref tle = sortref then Inr tle else get_sortgroupref_tle sortref tles)"

definition get_sortgroupclause_tle ::
  "SortGroupClause \<Rightarrow> TargetEntry list \<Rightarrow> ivm_error + TargetEntry" where
  "get_sortgroupclause_tle sgClause tlist = get_sortgroupref_tle (tleSortGroupRef sgClause) tlist"

text \<open>
  Modelled from the spec: \<^verbatim>\<open>transformDistinctClause\<close> (defined in
  \<^verbatim>\<open>parser/parse_clause.c\<close>) is what ``converts DISTINCT into GROUP BY over all target
  columns''.  The clause list it builds holds the clauses of ORDER BY, which must refer to
  columns of the select list, and then one clause for every remaining target entry that
  is not \<open>resjunk\<close>; a target entry that has no sort/group reference yet is given the next
  free one.  It fails when there is no column at all.
\<close>

definition targetIsInSortList :: "TargetEntry \<Rightarrow> SortGroupClause list \<Rightarrow> bool" where
  "targetIsInSortList tle sortList =
     (ressortgroupref tle \<noteq> 0 \<and>
      list_ex (\<lambda>scl. tleSortGroupRef scl = ressortgroupref tle) sortList)"

definition set_ressortgroupref :: "TargetEntry \<Rightarrow> nat \<Rightarrow> TargetEntry" where
  "set_ressortgroupref tle r = TargetEntry (expr tle) (resno tle) (resname tle) r (resjunk tle)"

definition assignSortGroupRef :: "TargetEntry \<Rightarrow> TargetEntry list \<Rightarrow> nat \<times> TargetEntry" where
  "assignSortGroupRef tle tlist =
     (if ressortgroupref tle \<noteq> 0 then (ressortgroupref tle, tle)
      else (let maxRef = fold max (map ressortgroupref tlist) 0
            in (maxRef + 1, set_ressortgroupref tle (maxRef + 1))))"

fun distinct_order_by_clauses ::
  "SortGroupClause list \<Rightarrow> TargetEntry list \<Rightarrow> ivm_error + SortGroupClause list" where
  "distinct_order_by_clauses [] tlist = Inr []"
| "distinct_order_by_clauses (scl # scls) tlist =
     (case get_sortgroupclause_tle scl tlist of
        Inl e \<Rightarrow> Inl e
      | Inr tle \<Rightarrow>
          if resjunk tle then Inl E_DISTINCT_ORDER_BY_NOT_IN_SELECT_LIST
          else (case distinct_order_by_clauses scls tlist of
                  Inl e \<Rightarrow> Inl e
                | Inr res \<Rightarrow> Inr (scl # res)))"

text \<open>\<open>seen\<close> are the target entries already handled, \<open>rest\<close> those still to handle.\<close>

fun addTargetsToGroupList ::
  "TargetEntry list \<Rightarrow> TargetEntry list \<Rightarrow> SortGroupClause list \<Rightarrow>
     SortGroupClause list \<times> TargetEntry list" where
  "addTargetsToGroupList seen [] grouplist = (grouplist, seen)"
| "addTargetsToGroupList seen (tle # rest) grouplist =
     (if resjunk tle then addTargetsToGroupList (seen @ [tle]) rest grouplist
      else if targetIsInSortList tle grouplist
        then addTargetsToGroupList (seen @ [tle]) rest grouplist
      else (let (r, tle') = assignSortGroupRef tle (seen @ tle # rest)
            in addTargetsToGroupList (seen @ [tle']) rest
                 (grouplist @ [\<lparr>tleSortGroupRef = r\<rparr>])))"

definition transformDistinctClause ::
  "TargetEntry list \<Rightarrow> SortGroupClause list \<Rightarrow>
     ivm_error + (SortGroupClause list \<times> TargetEntry list)" where
  "transformDistinctClause targetlist sortCl =
     (case distinct_order_by_clauses sortCl targetlist of
        Inl e \<Rightarrow> Inl e
      | Inr res \<Rightarrow>
          (let (result, tlist') = addTargetsToGroupList [] targetlist res
           in if result = [] then Inl E_DISTINCT_WITHOUT_COLUMNS else Inr (result, tlist')))"

text \<open>Lines 512--526: every GROUP BY key must be a column of the select list.\<close>

fun group_keys_in_targetlist :: "SortGroupClause list \<Rightarrow> TargetEntry list \<Rightarrow> ivm_error + unit" where
  "group_keys_in_targetlist [] tlist = Inr ()"
| "group_keys_in_targetlist (scl # scls) tlist =
     (case get_sortgroupclause_tle scl tlist of
        Inl e \<Rightarrow> Inl e
      | Inr tle \<Rightarrow>
          if resjunk tle then Inl E_GROUP_BY_NOT_IN_SELECT_LIST
          else group_keys_in_targetlist scls tlist)"

text \<open>Lines 512--529.\<close>

definition convert_distinct_to_group_by :: "Query \<Rightarrow> ivm_error + Query" where
  "convert_distinct_to_group_by rewritten =
     (if groupClause (info rewritten) \<noteq> [] then
        (case group_keys_in_targetlist (groupClause (info rewritten)) (targetList rewritten) of
           Inl e \<Rightarrow> Inl e
         | Inr u \<Rightarrow> Inr rewritten)
      else if \<not> hasAggs (info rewritten) \<and> distinctClause (info rewritten) \<noteq> [] then
        (case transformDistinctClause (targetList rewritten) (sortClause (info rewritten)) of
           Inl e \<Rightarrow> Inl e
         | Inr (gc, tlist') \<Rightarrow>
             Inr (set_info (set_targetList rewritten tlist')
                    ((info rewritten)\<lparr>groupClause := gc\<rparr>)))
      else Inr rewritten)"

text \<open>\<^verbatim>\<open>INT4OID\<close> of \<^verbatim>\<open>catalog/pg_type.h\<close>.\<close>

definition INT4OID :: Oid where
  "INT4OID = 23"

text \<open>\<^verbatim>\<open>((Aggref *) node)->args = aggref->args\<close>.\<close>

fun set_aggref_args :: "Expr \<Rightarrow> Expr list \<Rightarrow> Expr" where
  "set_aggref_args (Aggref f a tys flt dist ord) new_args = Aggref f new_args tys flt dist ord"
| "set_aggref_args node new_args = node"

text \<open>
  \<^verbatim>\<open>makeIvmAggColumn\<close> (lines 581--651).  The dummy constants that the code passes to
  \<^verbatim>\<open>ParseFuncOrColumn\<close> carry nothing but their types, so the parameter
  \<open>ParseFuncOrColumn\<close> takes the function name, the list of argument types and the flag
  \<^verbatim>\<open>agg_star\<close>.  The result is the new value of \<^verbatim>\<open>*next_resno\<close> and of \<^verbatim>\<open>*aggs\<close>.
\<close>

definition makeIvmAggColumn ::
  "pg_env \<Rightarrow> Expr \<Rightarrow> string \<Rightarrow> AttrNumber \<Rightarrow> TargetEntry list \<Rightarrow>
     AttrNumber \<times> TargetEntry list" where
  "makeIvmAggColumn env aggref rname next_resno aggs =
     (let aggname = get_func_name env (aggfnoid aggref);
          (next_resno1, aggs1) =
            (if aggname \<noteq> ''count'' then
               (next_resno + 1,
                aggs @ [TargetEntry
                          (set_aggref_args (ParseFuncOrColumn env ''count'' [INT4OID] False)
                             (args aggref))
                          next_resno (makeObjectName env ''__ivm_count'' rname ''_'') 0 False])
             else (next_resno, aggs))
      in if aggname = ''avg'' then
           (next_resno1 + 1,
            aggs1 @ [TargetEntry
                       (set_aggref_args (ParseFuncOrColumn env ''sum'' (aggargtypes aggref) False)
                          (args aggref))
                       next_resno1 (makeObjectName env ''__ivm_sum'' rname ''_'') 0 False])
         else (next_resno1, aggs1))"

text \<open>
  Line 541: the name of a column is the name of its target entry, or, when column names
  were given, the name at position \<open>resno - 1\<close> of \<open>colNames\<close>.
\<close>

definition column_resname :: "string list \<Rightarrow> TargetEntry \<Rightarrow> ivm_error + string" where
  "column_resname colNames tle =
     (if colNames = [] then Inr (resname tle)
      else if 0 \<le> resno tle - 1 \<and> resno tle - 1 < int (length colNames)
        then Inr (colNames ! nat (resno tle - 1))
      else Inl E_LIST_INDEX)"

text \<open>Lines 538--545: the loop over the target list.\<close>

fun ivm_agg_columns ::
  "pg_env \<Rightarrow> string list \<Rightarrow> TargetEntry list \<Rightarrow> AttrNumber \<Rightarrow> TargetEntry list \<Rightarrow>
     ivm_error + (AttrNumber \<times> TargetEntry list)" where
  "ivm_agg_columns env colNames [] next_resno aggs = Inr (next_resno, aggs)"
| "ivm_agg_columns env colNames (tle # tles) next_resno aggs =
     (case column_resname colNames tle of
        Inl e \<Rightarrow> Inl e
      | Inr rname \<Rightarrow>
          if is_Aggref (expr tle) then
            (let (next_resno', aggs') = makeIvmAggColumn env (expr tle) rname next_resno aggs
             in ivm_agg_columns env colNames tles next_resno' aggs')
          else ivm_agg_columns env colNames tles next_resno aggs)"

text \<open>Lines 531--547.\<close>

definition add_aggregate_columns :: "pg_env \<Rightarrow> Query \<Rightarrow> string list \<Rightarrow> ivm_error + Query" where
  "add_aggregate_columns env rewritten colNames =
     (if hasAggs (info rewritten) then
        (case ivm_agg_columns env colNames (targetList rewritten)
                (int (length (targetList rewritten)) + 1) [] of
           Inl e \<Rightarrow> Inl e
         | Inr (next_resno, aggs) \<Rightarrow>
             Inr (set_targetList rewritten (targetList rewritten @ aggs)))
      else Inr rewritten)"

text \<open>Lines 549--563.\<close>

definition add_count_star :: "pg_env \<Rightarrow> Query \<Rightarrow> Query" where
  "add_count_star env rewritten =
     (if distinctClause (info rewritten) \<noteq> [] \<or> hasAggs (info rewritten) then
        set_info
          (set_targetList rewritten
             (targetList rewritten @
                [TargetEntry (ParseFuncOrColumn env ''count'' [] True)
                   (int (length (targetList rewritten)) + 1) ''__ivm_count__'' 0 False]))
          ((info rewritten)\<lparr>hasAggs := True\<rparr>)
      else rewritten)"

definition rewriteQueryForIMMV :: "pg_env \<Rightarrow> Query \<Rightarrow> string list \<Rightarrow> ivm_error + Query" where
  "rewriteQueryForIMMV env query colNames =
     (case convert_distinct_to_group_by (add_exists_count_columns env query) of
        Inl e \<Rightarrow> Inl e
      | Inr rewritten2 \<Rightarrow>
          (case add_aggregate_columns env rewritten2 colNames of
             Inl e \<Rightarrow> Inl e
           | Inr rewritten3 \<Rightarrow> Inr (add_count_star env rewritten3)))"

section \<open>An environment for the examples\<close>

text \<open>
  The examples below are evaluated in one fixed environment: a database whose tables
  \<open>16384\<close> and \<open>16385\<close> have a primary key on their first column, without inheritance,
  whose operators are strict and hash-joinable, and queries without join alias variables,
  references to common table expressions or EXISTS clauses to rewrite.  The functions that
  collect variables return the variables of the given level that stand outside
  sub-queries.  No type is collatable, no index is compatible with a wanted one, the rule
  rewriter returns the query it is given, the tuple descriptor of a query has one integer
  column for every target entry that is not \<open>resjunk\<close>, there are no row-level security
  policies and no prepared statements, and three nested calls are allowed.
\<close>

fun expr_vars :: "nat \<Rightarrow> Expr \<Rightarrow> Expr list"
and exprs_vars :: "nat \<Rightarrow> Expr list \<Rightarrow> Expr list" where
  "expr_vars lev (Var n a l) = (if l = lev then [Var n a l] else [])"
| "expr_vars lev (Aggref f ags tys flt dist ord) = exprs_vars lev ags"
| "expr_vars lev (SubLink ty test sub) = []"
| "expr_vars lev (OpExpr opn ags) = exprs_vars lev ags"
| "expr_vars lev (OtherExpr ags) = exprs_vars lev ags"
| "exprs_vars lev [] = []"
| "exprs_vars lev (ex # exs) = expr_vars lev ex @ exprs_vars lev exs"

fun opt_vars :: "nat \<Rightarrow> Expr option \<Rightarrow> Expr list" where
  "opt_vars lev None = []"
| "opt_vars lev (Some ex) = expr_vars lev ex"

fun jt_vars :: "nat \<Rightarrow> JoinTree \<Rightarrow> Expr list"
and jts_vars :: "nat \<Rightarrow> JoinTree list \<Rightarrow> Expr list" where
  "jt_vars lev (RangeTblRef i) = []"
| "jt_vars lev (FromExpr fl q) = jts_vars lev fl @ opt_vars lev q"
| "jt_vars lev (JoinExpr ty l r q) = jt_vars lev l @ jt_vars lev r @ opt_vars lev q"
| "jts_vars lev [] = []"
| "jts_vars lev (j # js) = jt_vars lev j @ jts_vars lev js"

fun strict_operator_vars :: "Expr option \<Rightarrow> Expr list" where
  "strict_operator_vars (Some (OpExpr opn ags)) = filter is_Var ags"
| "strict_operator_vars _ = []"

fun demo_func_name :: "aggfn \<Rightarrow> string" where
  "demo_func_name F_COUNT_ANY = ''count''"
| "demo_func_name F_COUNT_STAR = ''count''"
| "demo_func_name (F_SUM t) = ''sum''"
| "demo_func_name (F_AVG t) = ''avg''"
| "demo_func_name (F_MIN t) = ''min''"
| "demo_func_name (F_MAX t) = ''max''"
| "demo_func_name (F_OTHER n) = ''other''"

definition demo_aggregate :: "string \<Rightarrow> Oid list \<Rightarrow> bool \<Rightarrow> Expr" where
  "demo_aggregate fname argtypes agg_star =
     Aggref (if fname = ''count'' then (if agg_star then F_COUNT_STAR else F_COUNT_ANY)
             else if fname = ''sum'' then F_SUM SUM_INT4 else F_OTHER 0)
       [] argtypes None [] []"

text \<open>
  Modelled from the spec: \<^verbatim>\<open>makeObjectName\<close> (defined in \<^verbatim>\<open>commands/indexcmds.c\<close>) builds
  the names that the spec writes \<^verbatim>\<open>__ivm_count_<colname>_\<close> and \<^verbatim>\<open>__ivm_sum_<colname>_\<close>
  from the calls \<^verbatim>\<open>makeObjectName("__ivm_count", resname, "_")\<close> and
  \<^verbatim>\<open>makeObjectName("__ivm_sum", resname, "_")\<close>.  It is used in the environment of the
  examples only.
\<close>

definition spec_makeObjectName :: "string \<Rightarrow> string \<Rightarrow> string \<Rightarrow> string" where
  "spec_makeObjectName name1 name2 label = name1 @ ''_'' @ name2 @ label"

definition demo_env :: pg_env where
  "demo_env =
     \<lparr>pull_vars_of_level_query =
        (\<lambda>q lev. exprs_vars lev (map expr (targetList q)) @ jt_vars lev (jointree q)),
      pull_vars_of_level = (\<lambda>eo lev. opt_vars lev eo),
      find_nonnullable_vars = strict_operator_vars,
      flatten_join_alias_vars = (\<lambda>q ex. ex),
      contain_nonstrict_functions = (\<lambda>tlist. False),
      contain_aggs_of_level = (\<lambda>ex lev. False),
      has_superclass = (\<lambda>rid. False),
      find_inheritance_children = (\<lambda>rid. []),
      pull_varnos = (\<lambda>ex. varno ` set (expr_vars 0 ex)),
      exprType = (\<lambda>ex. 23),
      op_mergejoinable = (\<lambda>opn ty. False),
      get_mergejoin_opfamilies = (\<lambda>opn. []),
      op_hashjoinable = (\<lambda>opn ty. True),
      rewrite_query_for_exists_subquery = (\<lambda>q. q),
      getColumnNameStartWith = (\<lambda>rte prefix. None),
      ParseFuncOrColumn = demo_aggregate,
      get_func_name = demo_func_name,
      makeObjectName = spec_makeObjectName,
      get_primary_key_attnos =
        (\<lambda>rid. if rid = 16384 \<or> rid = 16385 then (Some {8}, rid + 100) else (None, 0)),
      inline_cte = (\<lambda>q cte. q),
      pull_varnos_of_level = (\<lambda>jt lev. varno ` set (jt_vars lev jt)),
      contain_mutable_functions = (\<lambda>q. False),
      exprCollation = (\<lambda>ex. 0),
      type_is_collatable = (\<lambda>ty. False),
      CheckIndexCompatible = (\<lambda>indexoid params. False),
      QueryRewrite = (\<lambda>q. [q]),
      executor_tupdesc =
        (\<lambda>q. map (\<lambda>tle. \<lparr>attname = resname tle, atttypid = 23, attcollation = 0\<rparr>)
               (filter (\<lambda>tle. \<not> resjunk tle) (targetList q))),
      check_enable_rls = (\<lambda>rid. False),
      prepared_query = (\<lambda>name. None),
      max_stack_depth = Suc (Suc (Suc 0))\<rparr>"

text \<open>A query without any clause, and the range-table entry of a plain table.\<close>

definition plain_select :: QueryInfo where
  "plain_select =
     \<lparr>havingQual = None, sortClause = [], limitOffset = None, limitCount = None,
      hasDistinctOn = False, hasWindowFuncs = False, groupingSets = [],
      setOperations = None, rowMarks = [], hasRecursive = False, distinctClause = [],
      groupClause = [], hasAggs = False, hasSubLinks = False\<rparr>"

definition table_rte :: "Oid \<Rightarrow> RangeTblEntry" where
  "table_rte rid = RTE RTE_RELATION rid RELKIND_RELATION None None False []"

section \<open>Properties of the restriction checker\<close>














lemma walk_query_Inr:
  "walk_query env (Query qi tlist rt jt ctes) c = Inr c' \<longleftrightarrow>
     query_clause_restrictions (Query qi tlist rt jt ctes) = Inr () \<and>
     system_column_restriction env (Query qi tlist rt jt ctes) = Inr () \<and>
     subquery_restrictions qi c = Inr () \<and>
     (\<exists>c1 c2 c3. walk_rtable env rt (c\<lparr>has_agg := has_agg c \<or> hasAggs qi\<rparr>) = Inr c1 \<and>
        walk_tlist env tlist c1 = Inr c2 \<and> walk_jt env jt c2 = Inr c3 \<and>
        walk_ctes env ctes c3 = Inr c') \<and>
     exists_restrictions tlist c' = Inr () \<and>
     outerjoin_restrictions env (Query qi tlist rt jt ctes) c' = Inr ()"
  by (auto split: sum.splits)







subsection \<open>DISTINCT and aggregates in nested queries\<close>

lemma walk_query_nested_fails:
  assumes "0 < sublevels_up c" and "distinctClause qi \<noteq> [] \<or> hasAggs qi"
  shows "\<exists>e. walk_query env (Query qi tlist rt jt ctes) c = Inl e"
  using assms by (auto simp: subquery_restrictions_def split: sum.splits)

lemma walk_query_nested_diagnostic:
  assumes "0 < sublevels_up c" and "distinctClause qi \<noteq> [] \<or> hasAggs qi"
    and "query_clause_restrictions (Query qi tlist rt jt ctes) = Inr ()"
    and "system_column_restriction env (Query qi tlist rt jt ctes) = Inr ()"
  shows "walk_query env (Query qi tlist rt jt ctes) c =
           Inl (if distinctClause qi \<noteq> [] then E_NESTED_DISTINCT else E_NESTED_AGGREGATE)"
  using assms by (auto simp: subquery_restrictions_def)

text \<open>
  C8, as amended.  A query that the walker checks at a nesting depth greater than zero
  and that has a DISTINCT clause or aggregates is rejected; when none of the restrictions
  tested before
  (lines 1142--1198) is violated, the diagnostic is the one for DISTINCT in a nested
  query, or else the one for aggregates in a nested query.  The walker reaches a nested
  query from three places, a sub-query of the range table, the body of a common table
  expression and the body of a sublink, each time one level deeper, and each of them fails
  on such a query.  At depth zero the two tests do not fire; the example of the witness is
  accepted at depth zero.
\<close>

theorem nested_distinct_or_aggregate_rejected:
  "(0 < sublevels_up c \<and> (distinctClause (info qry) \<noteq> [] \<or> hasAggs (info qry)) \<longrightarrow>
      (\<exists>e. walk_query env qry c = Inl e) \<and>
      (query_clause_restrictions qry = Inr () \<and> system_column_restriction env qry = Inr () \<longrightarrow>
         walk_query env qry c =
           Inl (if distinctClause (info qry) \<noteq> [] then E_NESTED_DISTINCT
                else E_NESTED_AGGREGATE))) \<and>
   (0 \<le> sublevels_up c \<and> (distinctClause (info qry) \<noteq> [] \<or> hasAggs (info qry)) \<longrightarrow>
      (\<exists>e. walk_rtable env (RTE RTE_SUBQUERY rid rkind ts (Some qry) lat cn # rtes) c = Inl e) \<and>
      (\<exists>e. walk_cte env (CommonTableExpr nm qry n) c = Inl e) \<and>
      (\<exists>e. walk_expr env (SubLink ty test qry) c = Inl e)) \<and>
   (sublevels_up c = 0 \<longrightarrow> subquery_restrictions (info qry) c = Inr ())"
proof (cases qry)
  case (Query qi tlist rt jt ctes)
  have nested: "\<exists>e. walk_query env qry d = Inl e"
    if "0 < sublevels_up d" "distinctClause qi \<noteq> [] \<or> hasAggs qi" for d
    using walk_query_nested_fails[OF that] Query by simp
  have A: "0 < sublevels_up c \<and> (distinctClause (info qry) \<noteq> [] \<or> hasAggs (info qry)) \<longrightarrow>
      (\<exists>e. walk_query env qry c = Inl e) \<and>
      (query_clause_restrictions qry = Inr () \<and> system_column_restriction env qry = Inr () \<longrightarrow>
         walk_query env qry c =
           Inl (if distinctClause (info qry) \<noteq> [] then E_NESTED_DISTINCT
                else E_NESTED_AGGREGATE))"
    using walk_query_nested_fails[of c qi env tlist rt jt ctes]
      walk_query_nested_diagnostic[of c qi tlist rt jt ctes env] Query
    by auto
  have B: "(\<exists>e. walk_rtable env (RTE RTE_SUBQUERY rid rkind ts (Some qry) lat cn # rtes) c = Inl e) \<and>
      (\<exists>e. walk_cte env (CommonTableExpr nm qry n) c = Inl e) \<and>
      (\<exists>e. walk_expr env (SubLink ty test qry) c = Inl e)"
    if h: "0 \<le> sublevels_up c" "distinctClause (info qry) \<noteq> [] \<or> hasAggs (info qry)"
  proof -
    from h Query have d: "distinctClause qi \<noteq> [] \<or> hasAggs qi" by simp
    have 1: "\<exists>e. walk_query env qry
        (c\<lparr>has_subquery := True, sublevels_up := sublevels_up c + 1\<rparr>) = Inl e"
      using h(1) d by (intro nested) simp_all
    have 2: "\<exists>e. walk_query env qry (c\<lparr>sublevels_up := sublevels_up c + 1\<rparr>) = Inl e"
      using h(1) d by (intro nested) simp_all
    have 3: "\<exists>e. walk_query env qry
        (c\<lparr>in_exists_subquery := True, sublevels_up := sublevels_up c + 1\<rparr>) = Inl e"
      using h(1) d by (intro nested) simp_all
    from 1 have "\<exists>e. walk_rtable env (RTE RTE_SUBQUERY rid rkind ts (Some qry) lat cn # rtes) c = Inl e"
      by (auto split: sum.splits)
    moreover from 2 have "\<exists>e. walk_cte env (CommonTableExpr nm qry n) c = Inl e"
      by (auto split: sum.splits)
    moreover from 3 have "\<exists>e. walk_expr env (SubLink ty test qry) c = Inl e"
      by (auto split: sum.splits)
    ultimately show ?thesis by blast
  qed
  have C: "sublevels_up c = 0 \<longrightarrow> subquery_restrictions (info qry) c = Inr ()"
    by (simp add: subquery_restrictions_def)
  from A B C show ?thesis by blast
qed

text \<open>\<^verbatim>\<open>SELECT DISTINCT a FROM t\<close>, and \<^verbatim>\<open>SELECT count(a) FROM t\<close>.\<close>

definition select_distinct :: Query where
  "select_distinct =
     Query (plain_select\<lparr>distinctClause := [\<lparr>tleSortGroupRef = 1\<rparr>]\<rparr>)
       [TargetEntry (Var 1 1 0) 1 ''a'' 1 False]
       [table_rte 16384] (FromExpr [RangeTblRef 1] None) []"

lemmas demo_simps =
  demo_env_def plain_select_def table_rte_def initial_context_def check_ivm_restriction_def
  query_clause_restrictions_def system_column_restriction_def subquery_restrictions_def
  rte_restrictions_def exists_restrictions_def outerjoin_restrictions_def isIvmName_def
  where_restriction_def where_quals_vars_def nonnullable_vars_def list_difference_def
  join_vars_in_targetlist_def

theorem nested_distinct_or_aggregate_rejected_witness:
  "walk_query demo_env select_distinct (initial_context\<lparr>sublevels_up := 1\<rparr>) =
     Inl E_NESTED_DISTINCT \<and>
   (\<exists>e. walk_cte demo_env (CommonTableExpr ''c'' select_distinct 1) initial_context = Inl e) \<and>
   subquery_restrictions (info select_distinct) initial_context = Inr () \<and>
   check_ivm_restriction demo_env select_distinct = Inr ()"
  using nested_distinct_or_aggregate_rejected
    [of "initial_context\<lparr>sublevels_up := 1\<rparr>" select_distinct demo_env]
    nested_distinct_or_aggregate_rejected
    [of "initial_context" select_distinct demo_env 0 RELKIND_OTHER None False "[]" "[]"
       "''c''" 1]
  by (simp add: select_distinct_def demo_simps)

text \<open>
  C8 as stated fails: the sub-query of
  \<^verbatim>\<open>SELECT s.a FROM (SELECT DISTINCT a FROM t ORDER BY a) AS s\<close> is checked at depth one and
  has a DISTINCT clause, and the check fails with the diagnostic of ORDER BY, which is
  tested first.
\<close>

definition select_distinct_order_by :: Query where
  "select_distinct_order_by =
     Query (plain_select\<lparr>distinctClause := [\<lparr>tleSortGroupRef = 1\<rparr>],
                          sortClause := [\<lparr>tleSortGroupRef = 1\<rparr>]\<rparr>)
       [TargetEntry (Var 1 1 0) 1 ''a'' 1 False]
       [table_rte 16384] (FromExpr [RangeTblRef 1] None) []"

definition select_from_subquery :: "Query \<Rightarrow> Query" where
  "select_from_subquery sub =
     Query plain_select [TargetEntry (Var 1 1 0) 1 ''a'' 0 False]
       [RTE RTE_SUBQUERY 0 RELKIND_OTHER None (Some sub) False []]
       (FromExpr [RangeTblRef 1] None) []"

theorem nested_distinct_with_order_by_counterexample:
  "distinctClause (info select_distinct_order_by) \<noteq> [] \<and>
   walk_query demo_env select_distinct_order_by (initial_context\<lparr>sublevels_up := 1\<rparr>) =
     Inl E_ORDER_BY \<and>
   check_ivm_restriction demo_env (select_from_subquery select_distinct_order_by) =
     Inl E_ORDER_BY \<and>
   check_ivm_restriction demo_env (select_from_subquery select_distinct) =
     Inl E_NESTED_DISTINCT"
  by (simp add: select_distinct_order_by_def select_from_subquery_def select_distinct_def
        demo_simps)

subsection \<open>The WHERE clause of a query with an outer join\<close>















subsection \<open>Sublinks in the target list\<close>

text \<open>A target entry whose expression is a sublink is rejected, whatever the sublink type.\<close>

lemma walk_tle_SubLink:
  "walk_tle env (TargetEntry (SubLink ty test sub) rno rname sgref junk) c =
     Inl (if isIvmName rname then E_COLUMN_NAME rname
          else if has_agg c \<and> contain_aggs_of_level env (SubLink ty test sub) 0
          then E_AGGREGATE_IN_EXPRESSION
          else E_SUBLINK_IN_TARGETLIST)"
  by simp

text \<open>
  \<^verbatim>\<open>SELECT NOT EXISTS (SELECT 1 FROM t2) AS flag, t1.k FROM t1\<close>: the EXISTS sublink is
  an argument of the boolean expression of the first target entry.
\<close>

definition select_one_from_t2 :: Query where
  "select_one_from_t2 =
     Query plain_select [TargetEntry (OtherExpr []) 1 ''one'' 0 False]
       [table_rte 16385] (FromExpr [RangeTblRef 1] None) []"

definition select_not_exists :: Query where
  "select_not_exists =
     Query (plain_select\<lparr>hasSubLinks := True\<rparr>)
       [TargetEntry (OtherExpr [SubLink EXISTS_SUBLINK None select_one_from_t2]) 1 ''flag'' 0 False,
        TargetEntry (Var 1 1 0) 2 ''k'' 0 False]
       [table_rte 16384] (FromExpr [RangeTblRef 1] None) []"

text \<open>
  C10.  The check accepts this query, although its target list contains an EXISTS
  sublink: the test of the case \<^verbatim>\<open>T_TargetEntry\<close> looks at the top node of the expression
  only, and the case \<^verbatim>\<open>T_SubLink\<close> accepts an EXISTS sublink wherever the walk meets it.
\<close>

theorem sublink_inside_target_expression_accepted:
  "check_ivm_restriction demo_env select_not_exists = Inr ()"
  by (simp add: select_not_exists_def select_one_from_t2_def demo_simps)

subsection \<open>The checker on the output of the rewriter\<close>

lemma walk_tlist_append_Inr:
  "walk_tlist env (xs @ ys) c = Inr c' \<Longrightarrow>
     \<exists>c1. walk_tlist env xs c = Inr c1 \<and> walk_tlist env ys c1 = Inr c'"
  by (induct xs arbitrary: c) (auto split: sum.splits)

lemma walk_tlist_reserved_name:
  "isIvmName (resname tle) \<Longrightarrow> walk_tlist env (xs @ [tle]) c \<noteq> Inr c'"
proof
  assume n: "isIvmName (resname tle)" and w: "walk_tlist env (xs @ [tle]) c = Inr c'"
  from walk_tlist_append_Inr[OF w] obtain c1 where "walk_tlist env [tle] c1 = Inr c'" by blast
  with n show False by (cases tle) (auto split: sum.splits)
qed

lemma check_rejects_reserved_name:
  assumes "targetList q = xs @ [tle]" and "isIvmName (resname tle)"
  shows "\<exists>e. check_ivm_restriction env q = Inl e"
proof (cases "walk_query env q initial_context")
  case (Inl e)
  then show ?thesis by (simp add: check_ivm_restriction_def)
next
  case (Inr c')
  obtain qi tlist rt jt ctes where q: "q = Query qi tlist rt jt ctes" by (cases q)
  from Inr q obtain c1 c2 where "walk_tlist env tlist c1 = Inr c2"
    unfolding q walk_query_Inr by blast
  with assms q walk_tlist_reserved_name[of tle env xs c1 c2] show ?thesis by simp
qed

lemma info_set_targetList [simp]: "info (set_targetList q tlist) = info q"
  by (simp add: set_targetList_def)

lemma targetList_set_targetList [simp]: "targetList (set_targetList q tlist) = tlist"
  by (simp add: set_targetList_def)

lemma info_set_info [simp]: "info (set_info q qi) = qi"
  by (simp add: set_info_def)

lemma targetList_set_info [simp]: "targetList (set_info q qi) = targetList q"
  by (simp add: set_info_def)

lemma convert_distinct_to_group_by_info:
  "convert_distinct_to_group_by q = Inr q' \<Longrightarrow>
     distinctClause (info q') = distinctClause (info q) \<and> hasAggs (info q') = hasAggs (info q)"
  by (auto simp: convert_distinct_to_group_by_def split: if_splits sum.splits prod.splits)

lemma add_aggregate_columns_info:
  "add_aggregate_columns env q cnames = Inr q' \<Longrightarrow> info q' = info q"
  by (auto simp: add_aggregate_columns_def split: if_splits sum.splits prod.splits)

lemma add_count_star_targetList:
  "distinctClause (info q) \<noteq> [] \<or> hasAggs (info q) \<Longrightarrow>
     targetList (add_count_star env q) =
       targetList q @ [TargetEntry (ParseFuncOrColumn env ''count'' [] True)
                         (int (length (targetList q)) + 1) ''__ivm_count__'' 0 False] \<and>
     hasAggs (info (add_count_star env q))"
  by (auto simp: add_count_star_def)

lemma rewrite_unchanged:
  assumes "\<not> hasSubLinks (info q)" "distinctClause (info q) = []" "\<not> hasAggs (info q)"
    and "rewriteQueryForIMMV env q cnames = Inr q'"
  shows "q' = q"
  using assms
  by (auto simp: rewriteQueryForIMMV_def add_exists_count_columns_def
        convert_distinct_to_group_by_def add_aggregate_columns_def add_count_star_def
        split: sum.splits if_splits)

lemma rewrite_count_column:
  assumes "distinctClause (info (add_exists_count_columns env q)) \<noteq> [] \<or>
           hasAggs (info (add_exists_count_columns env q))"
    and "rewriteQueryForIMMV env q cnames = Inr q'"
  shows "\<exists>xs e. targetList q' = xs @ [TargetEntry e (int (length xs) + 1) ''__ivm_count__'' 0 False]
           \<and> hasAggs (info q')"
proof -
  from assms(2) obtain r2 r3 where
    a: "convert_distinct_to_group_by (add_exists_count_columns env q) = Inr r2"
    and b: "add_aggregate_columns env r2 cnames = Inr r3" and c: "q' = add_count_star env r3"
    by (auto simp: rewriteQueryForIMMV_def split: sum.splits)
  from convert_distinct_to_group_by_info[OF a] add_aggregate_columns_info[OF b] assms(1)
  have "distinctClause (info r3) \<noteq> [] \<or> hasAggs (info r3)" by simp
  from add_count_star_targetList[OF this, of env] c show ?thesis by blast
qed

text \<open>
  C1, as amended.  A query without sublinks, DISTINCT and aggregates is returned by the
  rewriter as it is, so the checker gives the same verdict on the output.  When the query
  has a DISTINCT clause or aggregates (once its EXISTS sublinks are rewritten), the output
  of the rewriter ends with the column \<^verbatim>\<open>__ivm_count__\<close>, and the checker rejects it: the
  name is a reserved one.
\<close>

theorem rewritten_query_checked_again:
  "(\<not> hasSubLinks (info q) \<and> distinctClause (info q) = [] \<and> \<not> hasAggs (info q) \<and>
      rewriteQueryForIMMV env q cnames = Inr q' \<longrightarrow>
        q' = q \<and> check_ivm_restriction env q' = check_ivm_restriction env q) \<and>
   ((distinctClause (info (add_exists_count_columns env q)) \<noteq> [] \<or>
       hasAggs (info (add_exists_count_columns env q))) \<and>
      rewriteQueryForIMMV env q cnames = Inr q' \<longrightarrow>
        (\<exists>e. check_ivm_restriction env q' = Inl e))"
proof (intro conjI impI)
  assume "\<not> hasSubLinks (info q) \<and> distinctClause (info q) = [] \<and> \<not> hasAggs (info q) \<and>
      rewriteQueryForIMMV env q cnames = Inr q'"
  then have "q' = q" using rewrite_unchanged by blast
  then show "q' = q" "check_ivm_restriction env q' = check_ivm_restriction env q" by simp_all
next
  assume h: "(distinctClause (info (add_exists_count_columns env q)) \<noteq> [] \<or>
       hasAggs (info (add_exists_count_columns env q))) \<and>
      rewriteQueryForIMMV env q cnames = Inr q'"
  then obtain xs e where
    "targetList q' = xs @ [TargetEntry e (int (length xs) + 1) ''__ivm_count__'' 0 False]"
    using rewrite_count_column by blast
  then show "\<exists>e. check_ivm_restriction env q' = Inl e"
    by (rule check_rejects_reserved_name) (simp add: isIvmName_def)
qed

text \<open>\<^verbatim>\<open>SELECT a FROM t\<close>, and what the rewriter makes of \<^verbatim>\<open>SELECT DISTINCT a FROM t\<close>.\<close>

definition select_plain :: Query where
  "select_plain =
     Query plain_select [TargetEntry (Var 1 1 0) 1 ''a'' 0 False]
       [table_rte 16384] (FromExpr [RangeTblRef 1] None) []"

definition select_distinct_rewritten :: Query where
  "select_distinct_rewritten =
     Query (plain_select\<lparr>distinctClause := [\<lparr>tleSortGroupRef = 1\<rparr>],
                          groupClause := [\<lparr>tleSortGroupRef = 1\<rparr>], hasAggs := True\<rparr>)
       [TargetEntry (Var 1 1 0) 1 ''a'' 1 False,
        TargetEntry (Aggref F_COUNT_STAR [] [] None [] []) 2 ''__ivm_count__'' 0 False]
       [table_rte 16384] (FromExpr [RangeTblRef 1] None) []"

lemmas rewrite_simps =
  rewriteQueryForIMMV_def add_exists_count_columns_def convert_distinct_to_group_by_def
  add_aggregate_columns_def add_count_star_def transformDistinctClause_def
  targetIsInSortList_def assignSortGroupRef_def set_ressortgroupref_def
  get_sortgroupclause_tle_def set_targetList_def set_info_def demo_aggregate_def
  column_resname_def makeIvmAggColumn_def spec_makeObjectName_def INT4OID_def

theorem rewritten_query_checked_again_witness:
  "rewriteQueryForIMMV demo_env select_plain [] = Inr select_plain \<and>
   check_ivm_restriction demo_env select_plain = Inr () \<and>
   rewriteQueryForIMMV demo_env select_distinct [] = Inr select_distinct_rewritten \<and>
   (\<exists>e. check_ivm_restriction demo_env select_distinct_rewritten = Inl e)"
  using rewritten_query_checked_again[of select_plain demo_env "[]" select_plain]
    rewritten_query_checked_again[of select_distinct demo_env "[]" select_distinct_rewritten]
  by (simp add: select_plain_def select_distinct_def select_distinct_rewritten_def
        rewrite_simps demo_simps)

text \<open>
  C1 as stated fails: \<^verbatim>\<open>SELECT DISTINCT a FROM t\<close> is accepted, and the checker
  rejects the output of the rewriter for the name of its last column.
\<close>

theorem rewritten_query_rejected_counterexample:
  "check_ivm_restriction demo_env select_distinct = Inr () \<and>
   rewriteQueryForIMMV demo_env select_distinct [] = Inr select_distinct_rewritten \<and>
   check_ivm_restriction demo_env select_distinct_rewritten = Inl (E_COLUMN_NAME ''__ivm_count__'')"
  by (simp add: select_distinct_def select_distinct_rewritten_def rewrite_simps demo_simps)

section \<open>Triggers on the base tables\<close>

text \<open>
  The statements that \<^verbatim>\<open>CreateIvmTrigger\<close> builds, with the fields that it sets to something
  else than a constant empty value.  The two arguments of the trigger function, the
  printed OID of the view and the printed lock mode, are kept as the values printed.
\<close>

datatype TriggerTiming = TRIGGER_TYPE_BEFORE | TRIGGER_TYPE_AFTER

datatype TriggerEvent = TRIGGER_TYPE_INSERT | TRIGGER_TYPE_DELETE | TRIGGER_TYPE_UPDATE

record TriggerTransition =
  transition_name :: string
  isNew :: bool
  isTable :: bool

record CreateTrigStmt =
  trigname :: string
  row :: bool
  timing :: TriggerTiming
  events :: TriggerEvent
  funcname :: string
  transitionRels :: "TriggerTransition list"
  arg_viewOid :: Oid
  arg_ex_lock :: bool

text \<open>
  The index statement of \<^verbatim>\<open>CreateIndexOnIMMV\<close>, a column definition, the descriptor of a
  relation, the notices of this file, and the part of the catalog that the functions of
  this file write: the triggers and the indexes with the relation they are created on, the
  recorded dependencies, the notices sent to the client, the relations marked as
  incrementally maintained, the number of calls of \<^verbatim>\<open>CommandCounterIncrement\<close>, the
  relations, the relations marked as populated, and the OID that the next relation gets.
\<close>

record IndexStmt =
  idxname :: string
  idx_relation :: string
  unique :: bool
  nulls_not_distinct :: bool
  indexParams :: "string list"


record RelationData =
  rd_id :: Oid
  rd_relname :: string
  rd_relkind :: RelKind
  rd_att :: "FormData_pg_attribute list"
  rd_indexlist :: "Oid list"
  rd_viewquery :: "Query option"

datatype notice =
    NOTICE_relation_exists string
  | NOTICE_could_not_create_index string
  | NOTICE_created_index string string

record catalog =
  triggers :: "(Oid \<times> CreateTrigStmt) list"
  trigger_depends :: "(Oid \<times> string \<times> Oid) list"
  indexes :: "(Oid \<times> IndexStmt) list"
  index_depends :: "(string \<times> Oid) list"
  notices :: "notice list"
  ivm_relations :: "Oid list"
  command_counter :: nat
  relations :: "RelationData list"
  populated :: "Oid list"
  next_oid :: Oid

definition ivm_trigger_stmt :: "Oid \<Rightarrow> TriggerEvent \<Rightarrow> TriggerTiming \<Rightarrow> bool \<Rightarrow> CreateTrigStmt" where
  "ivm_trigger_stmt viewOid type tm ex_lock =
     \<lparr>trigname =
        (case type of
           TRIGGER_TYPE_INSERT \<Rightarrow>
             (if tm = TRIGGER_TYPE_BEFORE then ''IVM_trigger_ins_before'' else ''IVM_trigger_ins_after'')
         | TRIGGER_TYPE_DELETE \<Rightarrow>
             (if tm = TRIGGER_TYPE_BEFORE then ''IVM_trigger_del_before'' else ''IVM_trigger_del_after'')
         | TRIGGER_TYPE_UPDATE \<Rightarrow>
             (if tm = TRIGGER_TYPE_BEFORE then ''IVM_trigger_upd_before'' else ''IVM_trigger_upd_after'')),
      row = False,
      timing = tm,
      events = type,
      funcname =
        (if tm = TRIGGER_TYPE_BEFORE then ''IVM_immediate_before'' else ''IVM_immediate_maintenance''),
      transitionRels =
        (if tm = TRIGGER_TYPE_AFTER then
           (if type = TRIGGER_TYPE_INSERT \<or> type = TRIGGER_TYPE_UPDATE
            then [\<lparr>transition_name = ''__ivm_newtable'', isNew = True, isTable = True\<rparr>] else []) @
           (if type = TRIGGER_TYPE_DELETE \<or> type = TRIGGER_TYPE_UPDATE
            then [\<lparr>transition_name = ''__ivm_oldtable'', isNew = False, isTable = True\<rparr>] else [])
         else []),
      arg_viewOid = viewOid,
      arg_ex_lock = ex_lock\<rparr>"

definition CreateIvmTrigger ::
  "Oid \<Rightarrow> Oid \<Rightarrow> TriggerEvent \<Rightarrow> TriggerTiming \<Rightarrow> bool \<Rightarrow> catalog \<Rightarrow> catalog" where
  "CreateIvmTrigger relOid viewOid type tm ex_lock st =
     st\<lparr>triggers := triggers st @ [(relOid, ivm_trigger_stmt viewOid type tm ex_lock)],
        trigger_depends := trigger_depends st @
          [(relOid, trigname (ivm_trigger_stmt viewOid type tm ex_lock), viewOid)],
        command_counter := command_counter st + 1\<rparr>"

definition create_six_triggers :: "Oid \<Rightarrow> Oid \<Rightarrow> bool \<Rightarrow> catalog \<Rightarrow> catalog" where
  "create_six_triggers rid matviewOid ex_lock st =
     CreateIvmTrigger rid matviewOid TRIGGER_TYPE_UPDATE TRIGGER_TYPE_AFTER ex_lock
      (CreateIvmTrigger rid matviewOid TRIGGER_TYPE_DELETE TRIGGER_TYPE_AFTER ex_lock
       (CreateIvmTrigger rid matviewOid TRIGGER_TYPE_INSERT TRIGGER_TYPE_AFTER ex_lock
        (CreateIvmTrigger rid matviewOid TRIGGER_TYPE_UPDATE TRIGGER_TYPE_BEFORE ex_lock
         (CreateIvmTrigger rid matviewOid TRIGGER_TYPE_DELETE TRIGGER_TYPE_BEFORE ex_lock
          (CreateIvmTrigger rid matviewOid TRIGGER_TYPE_INSERT TRIGGER_TYPE_BEFORE ex_lock st)))))"

text \<open>
  \<^verbatim>\<open>rt_fetch\<close> reads the range table at a 1-based index.  An index outside of the range
  table, which the C code does not expect, is the error \<^const>\<open>E_LIST_INDEX\<close> here.
\<close>

definition rt_fetch :: "nat \<Rightarrow> RangeTblEntry list \<Rightarrow> ivm_error + RangeTblEntry" where
  "rt_fetch rti rtbl =
     (if 1 \<le> rti \<and> rti \<le> length rtbl then Inr (rtbl ! (rti - 1)) else Inl E_LIST_INDEX)"

lemma size_nth_le: "i < length xs \<Longrightarrow> size (xs ! i) < Suc (size_list size xs)"
proof (induct xs arbitrary: i)
  case Nil
  then show ?case by simp
next
  case (Cons x xs)
  show ?case
  proof (cases i)
    case 0
    then show ?thesis by simp
  next
    case (Suc k)
    with Cons.prems have "k < length xs" by simp
    from Cons.hyps[OF this] Suc show ?thesis by simp
  qed
qed

lemma rt_fetch_subquery_size:
  assumes a: "rt_fetch rti (rtable qry) = Inr rte" and b: "subquery rte = Some sq"
  shows "size sq < size qry"
proof -
  from a have i: "rti - 1 < length (rtable qry)" and r: "rte = rtable qry ! (rti - 1)"
    by (auto simp: rt_fetch_def split: if_splits)
  have "size sq < size rte" using b by (cases rte) auto
  also have "\<dots> < Suc (size_list size (rtable qry))" using size_nth_le[OF i] r by simp
  also have "\<dots> \<le> size qry" by (cases qry) simp
  finally show ?thesis .
qed


text \<open>
  \<^verbatim>\<open>CreateIvmTriggersOnBaseTablesRecurse\<close>, by the tag of the node: a query (every call on a
  query passes the same query as \<^verbatim>\<open>qry\<close> and as \<^verbatim>\<open>node\<close>), a node of the join tree, and the
  two loops over a FROM list and over a CTE list.  The state is the set \<^verbatim>\<open>relids\<close> of the
  relations that have their triggers, and the catalog.  A subquery entry that has no
  subquery is a call on a null node, which returns.  The check of the stack depth is not
  modelled.

  \<^verbatim>\<open>bms_is_member\<close> and \<^verbatim>\<open>bms_add_member\<close> take the OID of the relation, an unsigned 32-bit
  number, as an \<^verbatim>\<open>int\<close>, and raise an error on a negative number: an OID above \<^verbatim>\<open>INT_MAX\<close>
  is one.  The test of membership is made for an entry of kind \<^verbatim>\<open>RTE_RELATION\<close> only.  The
  members of \<^verbatim>\<open>relids\<close> are thus OIDs up to \<^verbatim>\<open>INT_MAX\<close>, and are kept as OIDs.
\<close>

definition INT_MAX :: nat where
  "INT_MAX = 2147483647"

function recurse_query ::
    "Query \<Rightarrow> Oid \<Rightarrow> bool \<Rightarrow> Oid set \<times> catalog \<Rightarrow> ivm_error + Oid set \<times> catalog"
and recurse_jt ::
    "Query \<Rightarrow> JoinTree \<Rightarrow> Oid \<Rightarrow> bool \<Rightarrow> Oid set \<times> catalog \<Rightarrow> ivm_error + Oid set \<times> catalog"
and recurse_fromlist ::
    "Query \<Rightarrow> JoinTree list \<Rightarrow> Oid \<Rightarrow> bool \<Rightarrow> Oid set \<times> catalog \<Rightarrow>
       ivm_error + Oid set \<times> catalog"
and recurse_ctes ::
    "CommonTableExpr list \<Rightarrow> Oid \<Rightarrow> bool \<Rightarrow> Oid set \<times> catalog \<Rightarrow>
       ivm_error + Oid set \<times> catalog"
where
  "recurse_query (Query qi tlist rt jt ctes) matviewOid ex_lock s =
     (case recurse_jt (Query qi tlist rt jt ctes) jt matviewOid ex_lock s of
        Inl e \<Rightarrow> Inl e
      | Inr s1 \<Rightarrow> recurse_ctes ctes matviewOid ex_lock s1)"
| "recurse_jt qry (RangeTblRef rti) matviewOid ex_lock s =
     (case rt_fetch rti (rtable qry) of
        Inl e \<Rightarrow> Inl e
      | Inr rte \<Rightarrow>
          if rtekind rte = RTE_RELATION then
            (if relid rte > INT_MAX
             then Inl (E_ELOG ''negative bitmapset member not allowed'')
             else if relid rte \<notin> fst s then
               Inr (insert (relid rte) (fst s),
                    create_six_triggers (relid rte) matviewOid ex_lock (snd s))
             else Inr s)
          else if rtekind rte = RTE_SUBQUERY then
            (case subquery rte of
               None \<Rightarrow> Inr s
             | Some sq \<Rightarrow> recurse_query sq matviewOid ex_lock s)
          else Inr s)"
| "recurse_jt qry (FromExpr fl q) matviewOid ex_lock s =
     recurse_fromlist qry fl matviewOid ex_lock s"
| "recurse_jt qry (JoinExpr jty l r q) matviewOid ex_lock s =
     (case recurse_jt qry l matviewOid ex_lock s of
        Inl e \<Rightarrow> Inl e
      | Inr s1 \<Rightarrow> recurse_jt qry r matviewOid ex_lock s1)"
| "recurse_fromlist qry [] matviewOid ex_lock s = Inr s"
| "recurse_fromlist qry (j # js) matviewOid ex_lock s =
     (case recurse_jt qry j matviewOid ex_lock s of
        Inl e \<Rightarrow> Inl e
      | Inr s1 \<Rightarrow> recurse_fromlist qry js matviewOid ex_lock s1)"
| "recurse_ctes [] matviewOid ex_lock s = Inr s"
| "recurse_ctes (CommonTableExpr nm cq refc # ctes) matviewOid ex_lock s =
     (case recurse_query cq matviewOid ex_lock s of
        Inl e \<Rightarrow> Inl e
      | Inr s1 \<Rightarrow> recurse_ctes ctes matviewOid ex_lock s1)"
  by pat_completeness auto
termination
proof (relation "inv_image (less_than <*lex*> less_than) (\<lambda>x. case x of
     Inl (Inl (q, v, l, s)) \<Rightarrow> (2 * size q + 1, 0)
   | Inl (Inr (q, j, v, l, s)) \<Rightarrow> (2 * size q, size j)
   | Inr (Inl (q, js, v, l, s)) \<Rightarrow> (2 * size q, size_list size js)
   | Inr (Inr (cs, v, l, s)) \<Rightarrow> (2 * size_list size cs + 2, 0))", goal_cases)
  case 1 show ?case by auto
next
  case 2 show ?case by simp
next
  case 3 show ?case by simp
next
  case (4 qry rti v l s rte sq)
  then show ?case
    using rt_fetch_subquery_size[where rti=rti and qry=qry and rte=rte and sq=sq] by simp
next
  case 5 show ?case by simp
next
  case 6 show ?case by simp
next
  case 7 show ?case by simp
next
  case 8 show ?case by simp
next
  case 9 show ?case by simp
next
  case 10 show ?case by simp
next
  case 11 show ?case by simp
qed

definition PRS2_NEW_VARNO :: nat where
  "PRS2_NEW_VARNO = 2"

definition CreateIvmTriggersOnBaseTables ::
  "Query \<Rightarrow> Oid \<Rightarrow> bool \<Rightarrow> catalog \<Rightarrow> ivm_error + catalog" where
  "CreateIvmTriggersOnBaseTables qry matviewOid is_create st =
     (let first_rtindex = (if is_create then 1 else PRS2_NEW_VARNO + 1) in
      if length (rtable qry) < first_rtindex then Inr st
      else
        let rte = rtable qry ! (first_rtindex - 1);
            ex_lock = (length (rtable qry) > first_rtindex \<or> rtekind rte \<noteq> RTE_RELATION)
        in case recurse_query qry matviewOid ex_lock ({}, st) of
             Inl e \<Rightarrow> Inl e
           | Inr s \<Rightarrow> Inr (snd s))"

text \<open>
  The base relations that the walk reaches, in the order of the walk and with repetitions:
  those of the join tree, where a subquery entry stands for the relations of its subquery,
  then those of the queries of the CTE list.  \<^verbatim>\<open>first_visits\<close> keeps the first
  occurrence of every relation that is not in the set given.
\<close>

function relations_of_query :: "Query \<Rightarrow> Oid list"
and relations_of_jt :: "Query \<Rightarrow> JoinTree \<Rightarrow> Oid list"
and relations_of_fromlist :: "Query \<Rightarrow> JoinTree list \<Rightarrow> Oid list"
and relations_of_ctes :: "CommonTableExpr list \<Rightarrow> Oid list"
where
  "relations_of_query (Query qi tlist rt jt ctes) =
     relations_of_jt (Query qi tlist rt jt ctes) jt @ relations_of_ctes ctes"
| "relations_of_jt qry (RangeTblRef rti) =
     (case rt_fetch rti (rtable qry) of
        Inl e \<Rightarrow> []
      | Inr rte \<Rightarrow>
          if rtekind rte = RTE_RELATION then [relid rte]
          else if rtekind rte = RTE_SUBQUERY then
            (case subquery rte of None \<Rightarrow> [] | Some sq \<Rightarrow> relations_of_query sq)
          else [])"
| "relations_of_jt qry (FromExpr fl q) = relations_of_fromlist qry fl"
| "relations_of_jt qry (JoinExpr jty l r q) = relations_of_jt qry l @ relations_of_jt qry r"
| "relations_of_fromlist qry [] = []"
| "relations_of_fromlist qry (j # js) = relations_of_jt qry j @ relations_of_fromlist qry js"
| "relations_of_ctes [] = []"
| "relations_of_ctes (CommonTableExpr nm cq refc # ctes) =
     relations_of_query cq @ relations_of_ctes ctes"
  by pat_completeness auto
termination
proof (relation "inv_image (less_than <*lex*> less_than) (\<lambda>x. case x of
     Inl (Inl q) \<Rightarrow> (2 * size q + 1, 0)
   | Inl (Inr (q, j)) \<Rightarrow> (2 * size q, size j)
   | Inr (Inl (q, js)) \<Rightarrow> (2 * size q, size_list size js)
   | Inr (Inr cs) \<Rightarrow> (2 * size_list size cs + 2, 0))", goal_cases)
  case 1 show ?case by auto
next
  case 2 show ?case by simp
next
  case 3 show ?case by simp
next
  case (4 qry rti rte sq)
  then show ?case
    using rt_fetch_subquery_size[where rti=rti and qry=qry and rte=rte and sq=sq] by simp
next
  case 5 show ?case by simp
next
  case 6 show ?case by simp
next
  case 7 show ?case by simp
next
  case 8 show ?case by simp
next
  case 9 show ?case by simp
next
  case 10 show ?case by simp
next
  case 11 show ?case by simp
qed

fun first_visits :: "Oid set \<Rightarrow> Oid list \<Rightarrow> Oid list" where
  "first_visits seen [] = []"
| "first_visits seen (r # rs) =
     (if r \<in> seen then first_visits seen rs else r # first_visits (insert r seen) rs)"

text \<open>The six statements on one relation, in the order of their creation.\<close>

definition six_triggers :: "Oid \<Rightarrow> bool \<Rightarrow> Oid \<Rightarrow> (Oid \<times> CreateTrigStmt) list" where
  "six_triggers viewOid ex_lock r =
     map (\<lambda>(tm, ev). (r, ivm_trigger_stmt viewOid ev tm ex_lock))
       [(TRIGGER_TYPE_BEFORE, TRIGGER_TYPE_INSERT),
        (TRIGGER_TYPE_BEFORE, TRIGGER_TYPE_DELETE),
        (TRIGGER_TYPE_BEFORE, TRIGGER_TYPE_UPDATE),
        (TRIGGER_TYPE_AFTER, TRIGGER_TYPE_INSERT),
        (TRIGGER_TYPE_AFTER, TRIGGER_TYPE_DELETE),
        (TRIGGER_TYPE_AFTER, TRIGGER_TYPE_UPDATE)]"

definition trig_step ::
  "Oid \<Rightarrow> bool \<Rightarrow> Oid set \<times> catalog \<Rightarrow> Oid list \<Rightarrow> Oid set \<times> catalog \<Rightarrow> bool" where
  "trig_step v l s rs s' =
     (fst s' = fst s \<union> set rs \<and> (\<forall>r \<in> set rs. r \<le> INT_MAX) \<and>
      triggers (snd s') =
        triggers (snd s) @ concat (map (six_triggers v l) (first_visits (fst s) rs)))"

subsection \<open>The triggers created by the walk\<close>

lemma first_visits_append:
  "first_visits seen (xs @ ys) = first_visits seen xs @ first_visits (seen \<union> set xs) ys"
  by (induction xs arbitrary: seen) (simp_all add: insert_absorb)



lemma triggers_create_six_triggers:
  "triggers (create_six_triggers r v l st) = triggers st @ six_triggers v l r"
  by (simp add: create_six_triggers_def CreateIvmTrigger_def six_triggers_def)

lemma trig_step_refl: "trig_step v l s [] s"
  by (simp add: trig_step_def)

lemma trig_step_trans:
  "trig_step v l s xs s1 \<Longrightarrow> trig_step v l s1 ys s2 \<Longrightarrow> trig_step v l s (xs @ ys) s2"
  by (auto simp add: trig_step_def first_visits_append Un_assoc)

lemma trig_step_new:
  "r \<notin> fst s \<Longrightarrow> r \<le> INT_MAX \<Longrightarrow>
   trig_step v l s [r] (insert r (fst s), create_six_triggers r v l (snd s))"
  by (simp add: trig_step_def triggers_create_six_triggers)

lemma trig_step_seen: "r \<in> fst s \<Longrightarrow> r \<le> INT_MAX \<Longrightarrow> trig_step v l s [r] s"
  by (auto simp add: trig_step_def)

lemma recurse_trig_step:
  "recurse_query q v l s = Inr s' \<Longrightarrow> trig_step v l s (relations_of_query q) s'"
  "recurse_jt qry j v l s = Inr s' \<Longrightarrow> trig_step v l s (relations_of_jt qry j) s'"
  "recurse_fromlist qry js v l s = Inr s' \<Longrightarrow> trig_step v l s (relations_of_fromlist qry js) s'"
  "recurse_ctes cs v l s = Inr s' \<Longrightarrow> trig_step v l s (relations_of_ctes cs) s'"
proof (induction q v l s and qry j v l s and qry js v l s and cs v l s
       arbitrary: s' and s' and s' and s'
       rule: recurse_query_recurse_jt_recurse_fromlist_recurse_ctes.induct)
  case (1 qi tlist rt jt ctes v l s)
  from "1.prems" obtain s1 where
    a: "recurse_jt (Query qi tlist rt jt ctes) jt v l s = Inr s1" and
    b: "recurse_ctes ctes v l s1 = Inr s'"
    by (auto split: sum.splits)
  from "1.IH"(1)[OF a] "1.IH"(2)[OF a b] show ?case
    by (simp add: trig_step_trans)
next
  case (2 qry rti v l s)
  from "2.prems" obtain rte where f: "rt_fetch rti (rtable qry) = Inr rte"
    by (auto split: sum.splits)
  show ?case
  proof (cases "rtekind rte = RTE_RELATION")
    case True
    with "2.prems" f have b: "relid rte \<le> INT_MAX" by (auto split: if_splits)
    show ?thesis
    proof (cases "relid rte \<in> fst s")
      case True
      with \<open>rtekind rte = RTE_RELATION\<close> "2.prems" f b have "s' = s" by simp
      with True b \<open>rtekind rte = RTE_RELATION\<close> f show ?thesis
        by (simp add: trig_step_seen)
    next
      case False
      with \<open>rtekind rte = RTE_RELATION\<close> "2.prems" f b have
        "s' = (insert (relid rte) (fst s), create_six_triggers (relid rte) v l (snd s))"
        by simp
      with False b \<open>rtekind rte = RTE_RELATION\<close> f show ?thesis
        by (simp add: trig_step_new)
    qed
  next
    case False
    note nrel = this
    show ?thesis
    proof (cases "rtekind rte = RTE_SUBQUERY")
      case False
      then show ?thesis using "2.prems" f nrel by (simp add: trig_step_refl)
    next
      case True
      note sub = this
      show ?thesis
      proof (cases "subquery rte")
        case None
        then show ?thesis using "2.prems" f nrel sub by (simp add: trig_step_refl)
      next
        case (Some sq)
        from "2.prems" f nrel sub Some have r: "recurse_query sq v l s = Inr s'" by simp
        from "2.IH"[OF f nrel sub Some r] show ?thesis using f nrel sub Some by simp
      qed
    qed
  qed
next
  case (3 qry fl q v l s)
  then show ?case by simp
next
  case (4 qry jty lj rj q v l s)
  from "4.prems" obtain s1 where
    a: "recurse_jt qry lj v l s = Inr s1" and b: "recurse_jt qry rj v l s1 = Inr s'"
    by (auto split: sum.splits)
  from "4.IH"(1)[OF a] "4.IH"(2)[OF a b] show ?case by (simp add: trig_step_trans)
next
  case (5 qry v l s)
  then show ?case by (simp add: trig_step_refl)
next
  case (6 qry j js v l s)
  from "6.prems" obtain s1 where
    a: "recurse_jt qry j v l s = Inr s1" and b: "recurse_fromlist qry js v l s1 = Inr s'"
    by (auto split: sum.splits)
  from "6.IH"(1)[OF a] "6.IH"(2)[OF a b] show ?case by (simp add: trig_step_trans)
next
  case (7 v l s)
  then show ?case by (simp add: trig_step_refl)
next
  case (8 nm cq refc ctes v l s)
  from "8.prems" obtain s1 where
    a: "recurse_query cq v l s = Inr s1" and b: "recurse_ctes ctes v l s1 = Inr s'"
    by (auto split: sum.splits)
  from "8.IH"(1)[OF a] "8.IH"(2)[OF a b] show ?case by (simp add: trig_step_trans)
qed


definition empty_catalog :: catalog where
  "empty_catalog =
     \<lparr>triggers = [], trigger_depends = [], indexes = [], index_depends = [], notices = [],
      ivm_relations = [], command_counter = 0, relations = [], populated = [],
      next_oid = 20000\<rparr>"

lemma CreateIvmTriggersOnBaseTables_triggers:
  assumes "CreateIvmTriggersOnBaseTables qry v is_create st = Inr st'"
    and "(if is_create then 1 else PRS2_NEW_VARNO + 1) \<le> length (rtable qry)"
  shows "triggers st' = triggers st @
           concat (map (six_triggers v
             (length (rtable qry) > (if is_create then 1 else PRS2_NEW_VARNO + 1) \<or>
              rtekind (rtable qry ! ((if is_create then 1 else PRS2_NEW_VARNO + 1) - 1)) \<noteq>
                RTE_RELATION))
             (first_visits {} (relations_of_query qry)))"
proof -
  let ?f = "if is_create then 1 else PRS2_NEW_VARNO + 1"
  let ?l = "length (rtable qry) > ?f \<or> rtekind (rtable qry ! (?f - 1)) \<noteq> RTE_RELATION"
  from assms obtain s where r: "recurse_query qry v ?l ({}, st) = Inr s" and s: "st' = snd s"
    by (auto simp: CreateIvmTriggersOnBaseTables_def Let_def split: sum.splits if_splits)
  from recurse_trig_step(1)[OF r] s show ?thesis by (simp add: trig_step_def)
qed

lemma CreateIvmTriggersOnBaseTables_short:
  assumes "CreateIvmTriggersOnBaseTables qry v is_create st = Inr st'"
    and "length (rtable qry) < (if is_create then 1 else PRS2_NEW_VARNO + 1)"
  shows "st' = st"
  using assms by (auto simp: CreateIvmTriggersOnBaseTables_def Let_def split: if_splits)


lemma arg_ex_lock_six_triggers: "x \<in> set (six_triggers v l r) \<Longrightarrow> arg_ex_lock (snd x) = l"
  by (auto simp: six_triggers_def ivm_trigger_stmt_def)










text \<open>
  C4.  Every trigger that \<^verbatim>\<open>CreateIvmTriggersOnBaseTables\<close> creates carries the same lock
  mode, and that mode is the non-exclusive one exactly when the range table holds a single
  entry from the starting index on and this entry is a plain relation; with more entries,
  or with another kind of entry there, every trigger carries the exclusive mode.
\<close>

theorem lock_mode_passed_to_triggers:
  fixes qry :: Query and is_create :: bool
  defines "first_rtindex \<equiv> (if is_create then 1 else PRS2_NEW_VARNO + 1)"
  assumes "CreateIvmTriggersOnBaseTables qry v is_create st = Inr st'"
  shows "\<forall>x \<in> set (drop (length (triggers st)) (triggers st')).
           arg_ex_lock (snd x) =
             (\<not> (length (rtable qry) = first_rtindex \<and>
                 rtekind (rtable qry ! (first_rtindex - 1)) = RTE_RELATION))"
proof (cases "first_rtindex \<le> length (rtable qry)")
  case True
  then have le: "(if is_create then 1 else PRS2_NEW_VARNO + 1) \<le> length (rtable qry)"
    by (simp add: first_rtindex_def)
  have eq: "(length (rtable qry) > first_rtindex \<or>
             rtekind (rtable qry ! (first_rtindex - 1)) \<noteq> RTE_RELATION) =
        (\<not> (length (rtable qry) = first_rtindex \<and>
                 rtekind (rtable qry ! (first_rtindex - 1)) = RTE_RELATION))"
    using True by auto
  from CreateIvmTriggersOnBaseTables_triggers[OF assms(2) le]
  show ?thesis
    unfolding first_rtindex_def[symmetric] eq
    by (auto dest: arg_ex_lock_six_triggers)
next
  case False
  then have "length (rtable qry) < (if is_create then 1 else PRS2_NEW_VARNO + 1)"
    by (simp add: first_rtindex_def)
  from CreateIvmTriggersOnBaseTables_short[OF assms(2) this] show ?thesis by simp
qed

text \<open>
  \<^verbatim>\<open>SELECT t1.a FROM t1, t2\<close>: a view over two base tables.
\<close>

definition select_cross_join :: Query where
  "select_cross_join =
     Query plain_select [TargetEntry (Var 1 1 0) 1 ''a'' 0 False]
       [table_rte 16384, table_rte 16385] (FromExpr [RangeTblRef 1, RangeTblRef 2] None) []"

lemmas trigger_simps =
  CreateIvmTriggersOnBaseTables_def PRS2_NEW_VARNO_def rt_fetch_def create_six_triggers_def
  CreateIvmTrigger_def ivm_trigger_stmt_def empty_catalog_def INT_MAX_def

theorem lock_mode_passed_to_triggers_witness:
  "(\<exists>st'. CreateIvmTriggersOnBaseTables select_plain 99 True empty_catalog = Inr st' \<and>
          length (triggers st') = 6 \<and> (\<forall>x \<in> set (triggers st'). \<not> arg_ex_lock (snd x))) \<and>
   (\<exists>st'. CreateIvmTriggersOnBaseTables select_cross_join 99 True empty_catalog = Inr st' \<and>
          length (triggers st') = 12 \<and> (\<forall>x \<in> set (triggers st'). arg_ex_lock (snd x)))"
proof (intro conjI)
  obtain st' where e: "CreateIvmTriggersOnBaseTables select_plain 99 True empty_catalog = Inr st'"
    and n: "length (triggers st') = 6"
    by (simp add: select_plain_def table_rte_def trigger_simps)
  from lock_mode_passed_to_triggers[OF e]
  have "\<forall>x \<in> set (triggers st'). \<not> arg_ex_lock (snd x)"
    by (simp add: select_plain_def table_rte_def empty_catalog_def)
  with e n show "\<exists>st'. CreateIvmTriggersOnBaseTables select_plain 99 True empty_catalog = Inr st' \<and>
          length (triggers st') = 6 \<and> (\<forall>x \<in> set (triggers st'). \<not> arg_ex_lock (snd x))"
    by blast
next
  obtain st' where
    e: "CreateIvmTriggersOnBaseTables select_cross_join 99 True empty_catalog = Inr st'"
    and n: "length (triggers st') = 12"
    by (simp add: select_cross_join_def table_rte_def trigger_simps)
  from lock_mode_passed_to_triggers[OF e]
  have "\<forall>x \<in> set (triggers st'). arg_ex_lock (snd x)"
    by (simp add: select_cross_join_def table_rte_def empty_catalog_def)
  with e n show
    "\<exists>st'. CreateIvmTriggersOnBaseTables select_cross_join 99 True empty_catalog = Inr st' \<and>
          length (triggers st') = 12 \<and> (\<forall>x \<in> set (triggers st'). arg_ex_lock (snd x))"
    by blast
qed







section \<open>Properties of the query rewriter\<close>

subsection \<open>DISTINCT converted to GROUP BY\<close>







lemma groupClause_add_count_star [simp]:
  "groupClause (info (add_count_star env r)) = groupClause (info r)"
  by (simp add: add_count_star_def)













subsection \<open>The columns added for an aggregate\<close>

text \<open>
  \<open>resnos_from k tlist\<close>: the entries of \<open>tlist\<close> are numbered \<open>k\<close>, \<open>k + 1\<close>, ... in their
  order.  \<open>avg_columns\<close> are the two entries that \<^verbatim>\<open>makeIvmAggColumn\<close> makes for an \<^verbatim>\<open>avg\<close>
  aggregate with the arguments \<open>ags\<close> of types \<open>tys\<close>, for the column name \<open>nm\<close> and the
  next free number \<open>k\<close>.
\<close>

fun resnos_from :: "AttrNumber \<Rightarrow> TargetEntry list \<Rightarrow> bool" where
  "resnos_from k [] = True"
| "resnos_from k (tle # tles) = (resno tle = k \<and> resnos_from (k + 1) tles)"

definition avg_columns ::
  "pg_env \<Rightarrow> Expr list \<Rightarrow> Oid list \<Rightarrow> string \<Rightarrow> AttrNumber \<Rightarrow> TargetEntry list" where
  "avg_columns env ags tys nm k =
     [TargetEntry (set_aggref_args (ParseFuncOrColumn env ''count'' [INT4OID] False) ags)
        k (makeObjectName env ''__ivm_count'' nm ''_'') 0 False,
      TargetEntry (set_aggref_args (ParseFuncOrColumn env ''sum'' tys False) ags)
        (k + 1) (makeObjectName env ''__ivm_sum'' nm ''_'') 0 False]"

lemma resnos_from_append:
  "resnos_from k (xs @ ys) = (resnos_from k xs \<and> resnos_from (k + int (length xs)) ys)"
  by (induction xs arbitrary: k) (auto simp: algebra_simps)

lemma makeIvmAggColumn_new:
  "\<exists>new. makeIvmAggColumn env ag nm nr aggs = (nr + int (length new), aggs @ new) \<and>
         resnos_from nr new"
proof (cases "get_func_name env (aggfnoid ag) = ''count''")
  case True
  then have "makeIvmAggColumn env ag nm nr aggs = (nr + int (length ([] :: TargetEntry list)), aggs @ [])"
    by (simp add: makeIvmAggColumn_def)
  then show ?thesis using resnos_from.simps(1) by blast
next
  case False
  note nc = this
  show ?thesis
  proof (cases "get_func_name env (aggfnoid ag) = ''avg''")
    case True
    then have "makeIvmAggColumn env ag nm nr aggs =
        (nr + int (length (avg_columns env (args ag) (aggargtypes ag) nm nr)),
         aggs @ avg_columns env (args ag) (aggargtypes ag) nm nr)"
      by (simp add: makeIvmAggColumn_def avg_columns_def)
    moreover have "resnos_from nr (avg_columns env (args ag) (aggargtypes ag) nm nr)"
      by (simp add: avg_columns_def)
    ultimately show ?thesis by blast
  next
    case False
    let ?c = "TargetEntry
                (set_aggref_args (ParseFuncOrColumn env ''count'' [INT4OID] False) (args ag))
                nr (makeObjectName env ''__ivm_count'' nm ''_'') 0 False"
    from nc False have "makeIvmAggColumn env ag nm nr aggs = (nr + int (length [?c]), aggs @ [?c])"
      by (simp add: makeIvmAggColumn_def)
    moreover have "resnos_from nr [?c]" by simp
    ultimately show ?thesis by blast
  qed
qed

lemma makeIvmAggColumn_avg:
  "get_func_name env (aggfnoid ag) = ''avg'' \<Longrightarrow>
   makeIvmAggColumn env ag nm nr aggs =
     (nr + 2, aggs @ avg_columns env (args ag) (aggargtypes ag) nm nr)"
  by (simp add: makeIvmAggColumn_def avg_columns_def)

lemma ivm_agg_columns_new:
  "ivm_agg_columns env cn tles nr aggs = Inr (nr', aggs') \<Longrightarrow>
   \<exists>new. aggs' = aggs @ new \<and> nr' = nr + int (length new) \<and> resnos_from nr new"
proof (induction tles arbitrary: nr aggs)
  case Nil
  then have "aggs' = aggs @ [] \<and> nr' = nr + int (length ([] :: TargetEntry list))" by simp
  then show ?case using resnos_from.simps(1) by blast
next
  case (Cons tle tles)
  from Cons.prems obtain rname where rn: "column_resname cn tle = Inr rname"
    by (auto split: sum.splits)
  show ?case
  proof (cases "is_Aggref (expr tle)")
    case False
    with Cons.prems rn have "ivm_agg_columns env cn tles nr aggs = Inr (nr', aggs')" by simp
    from Cons.IH[OF this] show ?thesis .
  next
    case True
    obtain new1 where m: "makeIvmAggColumn env (expr tle) rname nr aggs =
        (nr + int (length new1), aggs @ new1)" and r1: "resnos_from nr new1"
      using makeIvmAggColumn_new by blast
    with Cons.prems rn True have
      "ivm_agg_columns env cn tles (nr + int (length new1)) (aggs @ new1) = Inr (nr', aggs')"
      by simp
    from Cons.IH[OF this] obtain new2 where
      a: "aggs' = (aggs @ new1) @ new2" and b: "nr' = nr + int (length new1) + int (length new2)"
      and r2: "resnos_from (nr + int (length new1)) new2"
      by blast
    have "aggs' = aggs @ (new1 @ new2)" using a by simp
    moreover have "nr' = nr + int (length (new1 @ new2))" using b by simp
    moreover have "resnos_from nr (new1 @ new2)" using r1 r2 by (simp add: resnos_from_append)
    ultimately show ?thesis by blast
  qed
qed

lemma ivm_agg_columns_append:
  "ivm_agg_columns env cn (xs @ ys) nr aggs =
     (case ivm_agg_columns env cn xs nr aggs of
        Inl e \<Rightarrow> Inl e
      | Inr (nr1, aggs1) \<Rightarrow> ivm_agg_columns env cn ys nr1 aggs1)"
proof (induction xs arbitrary: nr aggs)
  case Nil
  show ?case by simp
next
  case (Cons tle xs)
  show ?case
  proof (cases "column_resname cn tle")
    case (Inl e)
    then show ?thesis by simp
  next
    case (Inr rname)
    show ?thesis
    proof (cases "is_Aggref (expr tle)")
      case False
      with Inr Cons.IH show ?thesis by simp
    next
      case True
      obtain n1 a1 where "makeIvmAggColumn env (expr tle) rname nr aggs = (n1, a1)"
        by (cases "makeIvmAggColumn env (expr tle) rname nr aggs")
      with Inr True Cons.IH show ?thesis by simp
    qed
  qed
qed

lemma ivm_agg_columns_avg:
  assumes r: "ivm_agg_columns env cn (xs @ tle # ys) nr [] = Inr (nr', aggs')"
    and t: "expr tle = Aggref f ags tys flt dist ord"
    and f: "get_func_name env f = ''avg''"
    and n: "column_resname cn tle = Inr nm"
  shows "\<exists>pre post. aggs' = pre @ avg_columns env ags tys nm (nr + int (length pre)) @ post \<and>
           resnos_from nr aggs'"
proof -
  from ivm_agg_columns_new[OF r] have rf: "resnos_from nr aggs'" by auto
  from r obtain n1 a1 where
    x: "ivm_agg_columns env cn xs nr [] = Inr (n1, a1)" and
    y: "ivm_agg_columns env cn (tle # ys) n1 a1 = Inr (nr', aggs')"
    unfolding ivm_agg_columns_append by (auto split: sum.splits)
  from ivm_agg_columns_new[OF x] have n1: "n1 = nr + int (length a1)" by auto
  from t f have m: "makeIvmAggColumn env (expr tle) nm n1 a1 =
      (n1 + 2, a1 @ avg_columns env ags tys nm n1)"
    using makeIvmAggColumn_avg[of env "expr tle" nm n1 a1] by simp
  from y n t m have
    "ivm_agg_columns env cn ys (n1 + 2) (a1 @ avg_columns env ags tys nm n1) = Inr (nr', aggs')"
    by simp
  from ivm_agg_columns_new[OF this] obtain post where
    "aggs' = (a1 @ avg_columns env ags tys nm n1) @ post" by blast
  then have "aggs' = a1 @ avg_columns env ags tys nm (nr + int (length a1)) @ post"
    using n1 by simp
  with rf show ?thesis by blast
qed

lemma column_resname_Inr:
  "column_resname cn tle = Inr nm \<Longrightarrow>
   nm = (if cn = [] then resname tle else cn ! nat (resno tle - 1))"
  by (auto simp: column_resname_def split: if_splits)

lemma ivm_agg_columns_resname:
  "ivm_agg_columns env cn (xs @ tle # ys) nr aggs = Inr res \<Longrightarrow>
   \<exists>nm. column_resname cn tle = Inr nm"
  unfolding ivm_agg_columns_append by (auto split: sum.splits)

lemma rewrite_aggregates:
  assumes "rewriteQueryForIMMV env q cnames = Inr q'"
    and "hasAggs (info (add_exists_count_columns env q))"
  shows "\<exists>nr aggs.
           ivm_agg_columns env cnames (targetList (add_exists_count_columns env q))
             (int (length (targetList (add_exists_count_columns env q))) + 1) [] =
               Inr (nr, aggs) \<and>
           targetList q' =
             targetList (add_exists_count_columns env q) @ aggs @
               [TargetEntry (ParseFuncOrColumn env ''count'' [] True)
                  (int (length (targetList (add_exists_count_columns env q) @ aggs)) + 1)
                  ''__ivm_count__'' 0 False]"
proof -
  let ?q1 = "add_exists_count_columns env q"
  from assms(1) obtain r2 r3 where
    a: "convert_distinct_to_group_by ?q1 = Inr r2" and
    b: "add_aggregate_columns env r2 cnames = Inr r3" and c: "q' = add_count_star env r3"
    by (auto simp: rewriteQueryForIMMV_def split: sum.splits)
  from a assms(2) have r2: "r2 = ?q1"
    by (auto simp: convert_distinct_to_group_by_def split: sum.splits if_splits)
  from b r2 assms(2) obtain nr aggs where
    i: "ivm_agg_columns env cnames (targetList ?q1) (int (length (targetList ?q1)) + 1) [] =
          Inr (nr, aggs)" and
    r3: "r3 = set_targetList ?q1 (targetList ?q1 @ aggs)"
    by (auto simp: add_aggregate_columns_def split: sum.splits)
  from c r3 assms(2) have
    "targetList q' =
       targetList ?q1 @ aggs @
         [TargetEntry (ParseFuncOrColumn env ''count'' [] True)
            (int (length (targetList ?q1 @ aggs)) + 1) ''__ivm_count__'' 0 False]"
    by (simp add: add_count_star_def)
  with i show ?thesis by blast
qed

text \<open>
  C3, as amended.  Let the target list of a query with aggregates (once its EXISTS
  sublinks are rewritten) be numbered from 1 and hold an entry that is an \<^verbatim>\<open>avg\<close> aggregate.
  The name \<open>nm\<close> of its column is the name of the entry when no column names are given,
  and the column name given for its position otherwise.  Then the target list returned by
  the rewriter is the one of the query followed by new entries, among them, next to each
  other, a count column over the arguments of the aggregate, named by \<^verbatim>\<open>makeObjectName\<close>
  from \<^verbatim>\<open>__ivm_count\<close>, \<open>nm\<close> and \<^verbatim>\<open>_\<close>, and a sum column over the same arguments, named from
  \<^verbatim>\<open>__ivm_sum\<close>, \<open>nm\<close> and \<^verbatim>\<open>_\<close>; and the whole list is numbered from 1.
\<close>

theorem avg_support_columns:
  fixes env :: pg_env and q :: Query
  defines "q1 \<equiv> add_exists_count_columns env q"
  assumes "rewriteQueryForIMMV env q cnames = Inr q'"
    and "hasAggs (info q1)"
    and "targetList q1 = xs @ TargetEntry (Aggref f ags tys flt dist ord) rn a ref junk # ys"
    and "get_func_name env f = ''avg''"
    and "resnos_from 1 (targetList q1)"
  shows "\<exists>pre post.
           targetList q' =
             targetList q1 @ pre @
               avg_columns env ags tys (if cnames = [] then a else cnames ! nat (rn - 1))
                 (int (length (targetList q1 @ pre)) + 1) @ post \<and>
           resnos_from 1 (targetList q')"
proof -
  let ?tle = "TargetEntry (Aggref f ags tys flt dist ord) rn a ref junk"
  let ?n = "int (length (targetList q1)) + 1"
  from rewrite_aggregates[OF assms(2) assms(3)[unfolded q1_def]]
  obtain nr aggs where
    i: "ivm_agg_columns env cnames (xs @ ?tle # ys) ?n [] = Inr (nr, aggs)" and
    l: "targetList q' =
          targetList q1 @ aggs @
            [TargetEntry (ParseFuncOrColumn env ''count'' [] True)
               (int (length (targetList q1 @ aggs)) + 1) ''__ivm_count__'' 0 False]"
    unfolding q1_def[symmetric] assms(4) by blast
  from ivm_agg_columns_resname[OF i] obtain nm where c: "column_resname cnames ?tle = Inr nm"
    by blast
  from column_resname_Inr[OF c]
  have nm: "nm = (if cnames = [] then a else cnames ! nat (rn - 1))" by simp
  have e: "expr ?tle = Aggref f ags tys flt dist ord" by simp
  from ivm_agg_columns_avg[OF i e assms(5) c] obtain pre post where
    g: "aggs = pre @ avg_columns env ags tys nm (?n + int (length pre)) @ post" and
    r: "resnos_from ?n aggs"
    by blast
  let ?last = "TargetEntry (ParseFuncOrColumn env ''count'' [] True)
               (int (length (targetList q1 @ aggs)) + 1) ''__ivm_count__'' 0 False"
  have k: "?n + int (length pre) = int (length (targetList q1 @ pre)) + 1" by simp
  have "targetList q' =
          targetList q1 @ pre @
            avg_columns env ags tys nm (int (length (targetList q1 @ pre)) + 1) @
              (post @ [?last])"
    unfolding l unfolding g k by simp
  moreover have "resnos_from 1 (targetList q')"
    unfolding l using assms(6) r by (simp add: resnos_from_append add.commute)
  ultimately show ?thesis unfolding nm by blast
qed

text \<open>
  \<^verbatim>\<open>SELECT avg(i) AS a FROM t\<close>, and the results of the rewriter for the views
  \<^verbatim>\<open>mv\<close> and \<^verbatim>\<open>mv(x)\<close> defined by it.
\<close>

definition select_avg :: Query where
  "select_avg =
     Query (plain_select\<lparr>hasAggs := True\<rparr>)
       [TargetEntry (Aggref (F_AVG AVG_INT4) [Var 1 1 0] [23] None [] []) 1 ''a'' 0 False]
       [table_rte 16384] (FromExpr [RangeTblRef 1] None) []"

definition select_avg_rewritten :: "string \<Rightarrow> Query" where
  "select_avg_rewritten nm =
     Query (plain_select\<lparr>hasAggs := True\<rparr>)
       [TargetEntry (Aggref (F_AVG AVG_INT4) [Var 1 1 0] [23] None [] []) 1 ''a'' 0 False,
        TargetEntry (Aggref F_COUNT_ANY [Var 1 1 0] [23] None [] []) 2
          (''__ivm_count_'' @ nm @ ''_'') 0 False,
        TargetEntry (Aggref (F_SUM SUM_INT4) [Var 1 1 0] [23] None [] []) 3
          (''__ivm_sum_'' @ nm @ ''_'') 0 False,
        TargetEntry (Aggref F_COUNT_STAR [] [] None [] []) 4 ''__ivm_count__'' 0 False]
       [table_rte 16384] (FromExpr [RangeTblRef 1] None) []"

theorem avg_support_columns_witness:
  "rewriteQueryForIMMV demo_env select_avg [] = Inr (select_avg_rewritten ''a'') \<and>
   (\<exists>pre post.
      targetList (select_avg_rewritten ''a'') =
        targetList select_avg @ pre @
          avg_columns demo_env [Var 1 1 0] [23] ''a''
            (int (length (targetList select_avg @ pre)) + 1) @ post \<and>
      resnos_from 1 (targetList (select_avg_rewritten ''a'')))"
proof -
  have e: "rewriteQueryForIMMV demo_env select_avg [] = Inr (select_avg_rewritten ''a'')"
    by (simp add: select_avg_def select_avg_rewritten_def rewrite_simps demo_simps)
  have h: "hasAggs (info (add_exists_count_columns demo_env select_avg))"
    by (simp add: select_avg_def add_exists_count_columns_def plain_select_def)
  have t: "targetList (add_exists_count_columns demo_env select_avg) =
             [] @ TargetEntry (Aggref (F_AVG AVG_INT4) [Var 1 1 0] [23] None [] []) 1 ''a'' 0 False
                  # []"
    by (simp add: select_avg_def add_exists_count_columns_def plain_select_def)
  have f: "get_func_name demo_env (F_AVG AVG_INT4) = ''avg''"
    by (simp add: demo_env_def)
  have r: "resnos_from 1 (targetList (add_exists_count_columns demo_env select_avg))"
    by (simp add: select_avg_def add_exists_count_columns_def plain_select_def)
  have q: "add_exists_count_columns demo_env select_avg = select_avg"
    by (simp add: select_avg_def add_exists_count_columns_def plain_select_def)
  from avg_support_columns[OF e h t f r] e show ?thesis
    unfolding q by simp
qed

text \<open>
  C3 as stated fails: for the view \<^verbatim>\<open>mv(x)\<close> defined by \<^verbatim>\<open>SELECT avg(i) AS a FROM t\<close>, the target
  entry of the aggregate is named \<open>a\<close>, and the two columns added for it take their names
  from the column name \<open>x\<close>.
\<close>

theorem avg_columns_named_by_view_column_counterexample:
  "map resname (targetList select_avg) = [''a''] \<and>
   rewriteQueryForIMMV demo_env select_avg [''x''] = Inr (select_avg_rewritten ''x'') \<and>
   map resname (targetList (select_avg_rewritten ''x'')) =
     [''a'', ''__ivm_count_x_'', ''__ivm_sum_x_'', ''__ivm_count__'']"
  by (simp add: select_avg_def select_avg_rewritten_def rewrite_simps demo_simps)

section \<open>The index on the view\<close>

text \<open>
  A \<^verbatim>\<open>Bitmapset\<close> is a set of integers; the null pointer, which stands for the empty set,
  is \<open>None\<close>.  A set that \<^verbatim>\<open>bms_del_member\<close> empties may stay allocated, and
  \<^verbatim>\<open>bms_is_empty\<close> holds of it as of the null pointer.  \<^verbatim>\<open>bms_is_member\<close> raises an error on
  a negative number.
\<close>

type_synonym Bitmapset = "int set option"

definition bms_is_member :: "int \<Rightarrow> Bitmapset \<Rightarrow> ivm_error + bool" where
  "bms_is_member x a =
     (if x < 0 then Inl (E_ELOG ''negative bitmapset member not allowed'')
      else Inr (case a of None \<Rightarrow> False | Some s \<Rightarrow> x \<in> s))"

definition bms_add_member :: "Bitmapset \<Rightarrow> int \<Rightarrow> Bitmapset" where
  "bms_add_member a x = (case a of None \<Rightarrow> Some {x} | Some s \<Rightarrow> Some (insert x s))"

definition bms_del_member :: "Bitmapset \<Rightarrow> int \<Rightarrow> Bitmapset" where
  "bms_del_member a x = (case a of None \<Rightarrow> None | Some s \<Rightarrow> Some (s - {x}))"

definition bms_is_empty :: "Bitmapset \<Rightarrow> bool" where
  "bms_is_empty a = (case a of None \<Rightarrow> True | Some s \<Rightarrow> s = {})"

text \<open>\<^verbatim>\<open>FirstLowInvalidHeapAttributeNumber\<close> of \<^verbatim>\<open>access/sysattr.h\<close>.\<close>

definition FirstLowInvalidHeapAttributeNumber :: int where
  "FirstLowInvalidHeapAttributeNumber = - 7"

text \<open>Lines 1840--1853: the referenced CTEs are inlined, and the CTE list is emptied.\<close>

definition convert_ctes_to_subqueries :: "pg_env \<Rightarrow> Query \<Rightarrow> Query" where
  "convert_ctes_to_subqueries env qry =
     (let q = foldl (\<lambda>q cte. if cterefcount cte = 0 then q else inline_cte env q cte)
                qry (cteList qry)
      in Query (info q) (targetList q) (rtable q) (jointree q) [])"

text \<open>
  Lines 1902--1925: the loop over the target list.  \<open>i\<close> is the position of the entry,
  \<open>key_attnos_list\<close> holds for every range-table entry the key columns not found yet, and
  \<open>keys\<close> the positions found.  \<^verbatim>\<open>list_nth\<close> outside of the list is the error
  \<^const>\<open>E_LIST_INDEX\<close>.
\<close>

fun collect_key_attributes ::
  "pg_env \<Rightarrow> Query \<Rightarrow> TargetEntry list \<Rightarrow> int \<Rightarrow> Bitmapset list \<Rightarrow> Bitmapset \<Rightarrow>
     ivm_error + (Bitmapset list \<times> Bitmapset)" where
  "collect_key_attributes env qry [] i key_attnos_list keys = Inr (key_attnos_list, keys)"
| "collect_key_attributes env qry (tle # tles) i key_attnos_list keys =
     (case flatten_join_alias_vars env qry (expr tle) of
        Var vno attno lvl \<Rightarrow>
          if vno = 0 \<or> length key_attnos_list < vno then Inl E_LIST_INDEX
          else
            (case bms_is_member (attno - FirstLowInvalidHeapAttributeNumber)
                    (key_attnos_list ! (vno - 1)) of
               Inl e \<Rightarrow> Inl e
             | Inr True \<Rightarrow>
                 collect_key_attributes env qry tles (i + 1)
                   (key_attnos_list[vno - 1 :=
                      bms_del_member (key_attnos_list ! (vno - 1))
                        (attno - FirstLowInvalidHeapAttributeNumber)])
                   (bms_add_member keys (i - FirstLowInvalidHeapAttributeNumber))
             | Inr False \<Rightarrow> collect_key_attributes env qry tles (i + 1) key_attnos_list keys)
      | _ \<Rightarrow> collect_key_attributes env qry tles (i + 1) key_attnos_list keys)"

text \<open>
  Lines 1935--1942: some relation whose index \<open>i\<close> is in \<open>rels_in_from\<close> has key columns
  left.
\<close>

fun key_attributes_missing :: "Bitmapset list \<Rightarrow> nat \<Rightarrow> nat set \<Rightarrow> bool" where
  "key_attributes_missing [] i rels_in_from = False"
| "key_attributes_missing (bms # rest) i rels_in_from =
     ((\<not> bms_is_empty bms \<and> i \<in> rels_in_from) \<or>
      key_attributes_missing rest (i + 1) rels_in_from)"

text \<open>
  The end of an iteration of the loop over the range table: \<open>key_attnos\<close> is put before
  the sets of the entries that follow, unless one of them has no key.
\<close>

definition lappend_key_attnos ::
  "Bitmapset \<Rightarrow> ivm_error + (Bitmapset list option \<times> Oid list) \<Rightarrow>
     ivm_error + (Bitmapset list option \<times> Oid list)" where
  "lappend_key_attnos key_attnos res =
     (case res of
        Inl e \<Rightarrow> Inl e
      | Inr (None, cl) \<Rightarrow> Inr (None, cl)
      | Inr (Some kl, cl) \<Rightarrow> Inr (Some (key_attnos # kl), cl))"

lemma lappend_key_attnos_cong [fundef_cong]:
  "key_attnos = key_attnos' \<Longrightarrow> res = res' \<Longrightarrow>
   lappend_key_attnos key_attnos res = lappend_key_attnos key_attnos' res'"
  by simp

text \<open>
  \<^verbatim>\<open>get_primary_key_attnos_from_query\<close>, and its loop over the range table (lines
  1859--1900).  The first argument is the number of nested calls that \<^verbatim>\<open>check_stack_depth\<close>
  still allows.  The list \<^verbatim>\<open>*constraintList\<close> is passed in and returned with the result,
  also when the result is the null pointer.  The loop returns nothing, instead of the list
  of the key sets, when an entry has no key.  A subquery entry without subquery, which the
  C code does not expect, is the error \<^const>\<open>E_NULL_POINTER\<close>.
\<close>

fun get_primary_key_attnos_from_query ::
  "nat \<Rightarrow> pg_env \<Rightarrow> Query \<Rightarrow> Oid list \<Rightarrow> bool \<Rightarrow> ivm_error + (Bitmapset \<times> Oid list)"
and key_attnos_of_rtable ::
  "nat \<Rightarrow> pg_env \<Rightarrow> RangeTblEntry list \<Rightarrow> nat \<Rightarrow> nat \<Rightarrow> Oid list \<Rightarrow>
     ivm_error + (Bitmapset list option \<times> Oid list)"
where
  "get_primary_key_attnos_from_query 0 env qry constraintList is_create = Inl E_STACK_DEPTH"
| "get_primary_key_attnos_from_query (Suc depth) env qry constraintList is_create =
     (case key_attnos_of_rtable depth env (rtable (convert_ctes_to_subqueries env qry)) 1
             (if is_create then 1 else PRS2_NEW_VARNO + 1) constraintList of
        Inl e \<Rightarrow> Inl e
      | Inr (None, cl) \<Rightarrow> Inr (None, cl)
      | Inr (Some key_attnos_list, cl) \<Rightarrow>
          (case collect_key_attributes env (convert_ctes_to_subqueries env qry)
                  (targetList (convert_ctes_to_subqueries env qry)) 1 key_attnos_list None of
             Inl e \<Rightarrow> Inl e
           | Inr (remaining, keys) \<Rightarrow>
               if key_attributes_missing remaining 1
                    (pull_varnos_of_level env (jointree (convert_ctes_to_subqueries env qry)) 0)
               then Inr (None, cl)
               else Inr (keys, cl)))"
| "key_attnos_of_rtable depth env [] i first_rtindex constraintList =
     Inr (Some [], constraintList)"
| "key_attnos_of_rtable depth env (r # rest) i first_rtindex constraintList =
     (if i \<ge> first_rtindex then
        (if rtekind r = RTE_SUBQUERY then
           (case subquery r of
              None \<Rightarrow> Inl E_NULL_POINTER
            | Some sq \<Rightarrow>
                (case get_primary_key_attnos_from_query depth env sq constraintList True of
                   Inl e \<Rightarrow> Inl e
                 | Inr (key_attnos, cl) \<Rightarrow>
                     if key_attnos = None then Inr (None, cl)
                     else lappend_key_attnos key_attnos
                            (key_attnos_of_rtable depth env rest (i + 1) first_rtindex cl)))
         else if rtekind r = RTE_RELATION then
           (if fst (get_primary_key_attnos env (relid r)) = None
            then Inr (None, constraintList @ [snd (get_primary_key_attnos env (relid r))])
            else lappend_key_attnos (fst (get_primary_key_attnos env (relid r)))
                   (key_attnos_of_rtable depth env rest (i + 1) first_rtindex
                      (constraintList @ [snd (get_primary_key_attnos env (relid r))])))
         else lappend_key_attnos None
                (key_attnos_of_rtable depth env rest (i + 1) first_rtindex constraintList))
      else lappend_key_attnos None
             (key_attnos_of_rtable depth env rest (i + 1) first_rtindex constraintList))"

text \<open>\<^verbatim>\<open>NAMEDATALEN\<close> of \<^verbatim>\<open>pg_config_manual.h\<close>.\<close>

definition NAMEDATALEN :: nat where
  "NAMEDATALEN = 64"

text \<open>The name of the attribute \<open>resno - 1\<close> of the tuple descriptor of the view.\<close>

definition TupleDescAttr_name :: "RelationData \<Rightarrow> TargetEntry \<Rightarrow> ivm_error + string" where
  "TupleDescAttr_name matviewRel tle =
     (if 1 \<le> resno tle \<and> resno tle \<le> int (length (rd_att matviewRel))
      then Inr (attname (rd_att matviewRel ! nat (resno tle - 1)))
      else Inl E_LIST_INDEX)"

text \<open>Lines 1675--1696: the columns of the GROUP BY expressions.\<close>

fun group_by_index_params ::
  "SortGroupClause list \<Rightarrow> TargetEntry list \<Rightarrow> RelationData \<Rightarrow> ivm_error + string list" where
  "group_by_index_params [] tlist matviewRel = Inr []"
| "group_by_index_params (scl # scls) tlist matviewRel =
     (case get_sortgroupclause_tle scl tlist of
        Inl e \<Rightarrow> Inl e
      | Inr tle \<Rightarrow>
          (case TupleDescAttr_name matviewRel tle of
             Inl e \<Rightarrow> Inl e
           | Inr name \<Rightarrow>
               (case group_by_index_params scls tlist matviewRel of
                  Inl e \<Rightarrow> Inl e
                | Inr names \<Rightarrow> Inr (name # names))))"

text \<open>Lines 1697--1717: all the columns.\<close>

fun distinct_index_params :: "TargetEntry list \<Rightarrow> RelationData \<Rightarrow> ivm_error + string list" where
  "distinct_index_params [] matviewRel = Inr []"
| "distinct_index_params (tle # tles) matviewRel =
     (case TupleDescAttr_name matviewRel tle of
        Inl e \<Rightarrow> Inl e
      | Inr name \<Rightarrow>
          (case distinct_index_params tles matviewRel of
             Inl e \<Rightarrow> Inl e
           | Inr names \<Rightarrow> Inr (name # names)))"

text \<open>Lines 1726--1746: the columns whose position is in \<open>key_attnos\<close>.\<close>

fun primary_key_index_params ::
  "TargetEntry list \<Rightarrow> RelationData \<Rightarrow> Bitmapset \<Rightarrow> ivm_error + string list" where
  "primary_key_index_params [] matviewRel key_attnos = Inr []"
| "primary_key_index_params (tle # tles) matviewRel key_attnos =
     (case bms_is_member (resno tle - FirstLowInvalidHeapAttributeNumber) key_attnos of
        Inl e \<Rightarrow> Inl e
      | Inr False \<Rightarrow> primary_key_index_params tles matviewRel key_attnos
      | Inr True \<Rightarrow>
          (case TupleDescAttr_name matviewRel tle of
             Inl e \<Rightarrow> Inl e
           | Inr name \<Rightarrow>
               (case primary_key_index_params tles matviewRel key_attnos of
                  Inl e \<Rightarrow> Inl e
                | Inr names \<Rightarrow> Inr (name # names))))"

text \<open>
  Lines 1675--1759: the columns of the index and the constraints it depends on, or nothing
  when no index is to be created.
\<close>

definition index_params_of_query ::
  "pg_env \<Rightarrow> Query \<Rightarrow> RelationData \<Rightarrow> bool \<Rightarrow> ivm_error + (string list \<times> Oid list) option" where
  "index_params_of_query env qry matviewRel is_create =
     (if groupClause (info qry) \<noteq> [] then
        (case group_by_index_params (groupClause (info qry)) (targetList qry) matviewRel of
           Inl e \<Rightarrow> Inl e
         | Inr names \<Rightarrow> Inr (Some (names, [])))
      else if distinctClause (info qry) \<noteq> [] then
        (case distinct_index_params (targetList qry) matviewRel of
           Inl e \<Rightarrow> Inl e
         | Inr names \<Rightarrow> Inr (Some (names, [])))
      else
        (case get_primary_key_attnos_from_query (max_stack_depth env) env qry [] is_create of
           Inl e \<Rightarrow> Inl e
         | Inr (None, constraintList) \<Rightarrow> Inr None
         | Inr (Some key_attnos, constraintList) \<Rightarrow>
             (case primary_key_index_params (targetList qry) matviewRel (Some key_attnos) of
                Inl e \<Rightarrow> Inl e
              | Inr names \<Rightarrow> Inr (Some (names, constraintList)))))"

text \<open>
  \<^verbatim>\<open>CreateIndexOnIMMV\<close>.  The index statement is kept with the fields that are not constant
  empty values; \<^verbatim>\<open>DefineIndex\<close> adds it to the catalog.
\<close>

definition CreateIndexOnIMMV ::
  "pg_env \<Rightarrow> Query \<Rightarrow> RelationData \<Rightarrow> bool \<Rightarrow> catalog \<Rightarrow> ivm_error + catalog" where
  "CreateIndexOnIMMV env qry matviewRel is_create st =
     (let idxname' = take (NAMEDATALEN - 1) (rd_relname matviewRel @ ''_index'') in
      case index_params_of_query env qry matviewRel is_create of
        Inl e \<Rightarrow> Inl e
      | Inr None \<Rightarrow>
          Inr (st\<lparr>notices := notices st @
                 [NOTICE_could_not_create_index (rd_relname matviewRel)]\<rparr>)
      | Inr (Some (params, constraintList)) \<Rightarrow>
          if list_ex (\<lambda>indexoid. CheckIndexCompatible env indexoid params)
               (rd_indexlist matviewRel)
          then Inr st
          else
            Inr (st\<lparr>indexes := indexes st @
                      [(rd_id matviewRel,
                        \<lparr>idxname = idxname', idx_relation = rd_relname matviewRel,
                         unique = True, nulls_not_distinct = True, indexParams = params\<rparr>)],
                    notices := notices st @
                      [NOTICE_created_index idxname' (rd_relname matviewRel)],
                    index_depends := index_depends st @
                      map (\<lambda>constraintOid. (idxname', constraintOid)) constraintList\<rparr>))"

subsection \<open>The key columns of a query\<close>

lemma lappend_key_attnos_Inr_Some:
  "lappend_key_attnos ka res = Inr (Some kl, cl) \<Longrightarrow>
   \<exists>kl'. res = Inr (Some kl', cl) \<and> kl = ka # kl'"
  by (auto simp: lappend_key_attnos_def split: sum.splits option.splits prod.splits)

text \<open>
  The loop over the range table returns nothing when an entry from the starting index on
  is a relation without primary key.
\<close>

lemma key_attnos_of_rtable_no_primary_key:
  assumes "key_attnos_of_rtable depth env rt i first_rtindex cl = Inr (res, cl')"
    and "k < length rt" and "first_rtindex \<le> i + k"
    and "rtekind (rt ! k) = RTE_RELATION"
    and "fst (get_primary_key_attnos env (relid (rt ! k))) = None"
  shows "res = None"
  using assms
proof (induction rt arbitrary: i k cl res)
  case Nil
  then show ?case by simp
next
  case (Cons r rest)
  show ?case
  proof (cases res)
    case None
    then show ?thesis .
  next
    case (Some kl)
    show ?thesis
    proof (cases k)
      case 0
      with Cons.prems Some show ?thesis
        by (auto simp: lappend_key_attnos_def split: if_splits sum.splits option.splits prod.splits)
    next
      case (Suc k')
      from Cons.prems(1) Some obtain ka cl1 kl' where
        r: "key_attnos_of_rtable depth env rest (i + 1) first_rtindex cl1 = Inr (Some kl', cl')"
        by (auto split: if_splits sum.splits option.splits prod.splits
                 dest!: lappend_key_attnos_Inr_Some)
      from Cons.prems(2-5) Suc have
        "k' < length rest" "first_rtindex \<le> (i + 1) + k'"
        "rtekind (rest ! k') = RTE_RELATION"
        "fst (get_primary_key_attnos env (relid (rest ! k'))) = None"
        by simp_all
      from Cons.IH[OF r this] show ?thesis by simp
    qed
  qed
qed

lemma get_primary_key_attnos_from_query_no_primary_key:
  assumes "get_primary_key_attnos_from_query depth env qry cl is_create = Inr (res, cl')"
    and "k < length (rtable (convert_ctes_to_subqueries env qry))"
    and "(if is_create then 1 else PRS2_NEW_VARNO + 1) \<le> k + 1"
    and "rtekind (rtable (convert_ctes_to_subqueries env qry) ! k) = RTE_RELATION"
    and "fst (get_primary_key_attnos env
           (relid (rtable (convert_ctes_to_subqueries env qry) ! k))) = None"
  shows "res = None"
proof (cases depth)
  case 0
  with assms(1) show ?thesis by simp
next
  case (Suc d)
  let ?q = "convert_ctes_to_subqueries env qry"
  let ?f = "if is_create then 1 else PRS2_NEW_VARNO + 1"
  obtain r cl1 where
    k: "key_attnos_of_rtable d env (rtable ?q) 1 ?f cl = Inr (r, cl1)"
    using assms(1) Suc by (auto split: sum.splits)
  have "?f \<le> 1 + k" using assms(3) by simp
  from key_attnos_of_rtable_no_primary_key[OF k assms(2) this assms(4,5)]
  have "r = None" .
  with assms(1) Suc k show ?thesis by simp
qed

text \<open>
  When the query has no GROUP BY and no DISTINCT clause and its key columns are the null
  pointer, \<^verbatim>\<open>CreateIndexOnIMMV\<close> sends a notice, creates no index and raises no error.
\<close>

lemma CreateIndexOnIMMV_without_key:
  assumes "groupClause (info qry) = []" and "distinctClause (info qry) = []"
    and "get_primary_key_attnos_from_query (max_stack_depth env) env qry [] is_create =
           Inr (None, cl)"
  shows "CreateIndexOnIMMV env qry matviewRel is_create st =
           Inr (st\<lparr>notices := notices st @
                  [NOTICE_could_not_create_index (rd_relname matviewRel)]\<rparr>)"
  using assms by (simp add: CreateIndexOnIMMV_def index_params_of_query_def)

text \<open>The view \<^verbatim>\<open>mv\<close> with columns of the names given.\<close>

definition mv_relation :: "string list \<Rightarrow> RelationData" where
  "mv_relation names =
     \<lparr>rd_id = 20000, rd_relname = ''mv'', rd_relkind = RELKIND_MATVIEW,
      rd_att = map (\<lambda>n. \<lparr>attname = n, atttypid = 23, attcollation = 0\<rparr>) names,
      rd_indexlist = [], rd_viewquery = None\<rparr>"

lemmas index_simps =
  CreateIndexOnIMMV_def index_params_of_query_def convert_ctes_to_subqueries_def
  lappend_key_attnos_def bms_is_member_def bms_add_member_def bms_del_member_def
  bms_is_empty_def FirstLowInvalidHeapAttributeNumber_def NAMEDATALEN_def
  TupleDescAttr_name_def mv_relation_def PRS2_NEW_VARNO_def Let_def

text \<open>
  C6 fails on \<^verbatim>\<open>SELECT t1.a FROM t1, t2\<close>, where \<open>a\<close> is the primary key of \<open>t1\<close> and the
  primary key of \<open>t2\<close> is not in the target list.  The join tree holds no variable, so
  that no relation is in \<^verbatim>\<open>rels_in_from\<close>: the key column left of \<open>t2\<close> is not seen, the
  result is the set that holds the position of \<open>a\<close>, and \<^verbatim>\<open>CreateIndexOnIMMV\<close> creates a
  unique index on the column \<open>a\<close> of the view.
\<close>

theorem partial_key_set_for_unprojected_key:
  "get_primary_key_attnos demo_env 16385 = (Some {8}, 16485) \<and>
   map expr (targetList select_cross_join) = [Var 1 1 0] \<and>
   pull_varnos_of_level demo_env (jointree select_cross_join) 0 = {} \<and>
   get_primary_key_attnos_from_query (max_stack_depth demo_env) demo_env select_cross_join []
     True = Inr (Some {8}, [16484, 16485]) \<and>
   CreateIndexOnIMMV demo_env select_cross_join (mv_relation [''a'']) True empty_catalog =
     Inr (empty_catalog
            \<lparr>indexes :=
               [(20000, \<lparr>idxname = ''mv_index'', idx_relation = ''mv'', unique = True,
                         nulls_not_distinct = True, indexParams = [''a'']\<rparr>)],
             notices := [NOTICE_created_index ''mv_index'' ''mv''],
             index_depends := [(''mv_index'', 16484), (''mv_index'', 16485)]\<rparr>)"
proof (intro conjI)
  show "get_primary_key_attnos demo_env 16385 = (Some {8}, 16485)"
    by (simp add: demo_env_def)
  show "map expr (targetList select_cross_join) = [Var 1 1 0]"
    by (simp add: select_cross_join_def)
  show "pull_varnos_of_level demo_env (jointree select_cross_join) 0 = {}"
    by (simp add: select_cross_join_def demo_env_def)
  show k: "get_primary_key_attnos_from_query (max_stack_depth demo_env) demo_env
          select_cross_join [] True = Inr (Some {8}, [16484, 16485])"
    by (simp add: select_cross_join_def demo_env_def table_rte_def plain_select_def index_simps)
  show "CreateIndexOnIMMV demo_env select_cross_join (mv_relation [''a'']) True empty_catalog =
     Inr (empty_catalog
            \<lparr>indexes :=
               [(20000, \<lparr>idxname = ''mv_index'', idx_relation = ''mv'', unique = True,
                         nulls_not_distinct = True, indexParams = [''a'']\<rparr>)],
             notices := [NOTICE_created_index ''mv_index'' ''mv''],
             index_depends := [(''mv_index'', 16484), (''mv_index'', 16485)]\<rparr>)"
    by (simp add: select_cross_join_def demo_env_def table_rte_def plain_select_def index_simps
          empty_catalog_def)
qed

section \<open>CREATE TABLE AS and CREATE MATERIALIZED VIEW\<close>

text \<open>
  The statement, with the fields that \<^verbatim>\<open>ExecCreateTableAs\<close> reads: the target relation (its
  name; namespaces are not modelled), the column names, the view query of a materialized
  view, and the flags.  The query of the statement is a SELECT or an EXECUTE of a prepared
  statement.  An object address is the OID of the object; \<^verbatim>\<open>InvalidObjectAddress\<close> is
  \<^verbatim>\<open>InvalidOid\<close>.
\<close>

record IntoClause =
  rel :: string
  colNames :: "string list"
  viewQuery :: "Query option"
  ivm :: bool
  skipData :: bool

datatype StmtQuery = SelectQuery Query | ExecuteStmt string

record CreateTableAsStmt =
  query :: StmtQuery
  into :: IntoClause
  if_not_exists :: bool

















subsection \<open>WITH NO DATA\<close>


















end
